theory Spec2Isabelle
  imports Complex_Main
begin

section \<open>Attendance rules of \<open>backend/time_utils.py\<close>\<close>

text \<open>
  The module \<open>backend/time_utils.py\<close> has three functions: \<open>calculate_working_hours\<close>,
  \<open>calculate_status\<close> and \<open>format_hours\<close>. They are embedded here as HOL functions.

  Conventions of the embedding.
  \<^item> A Python \<open>str\<close> is a \<open>string\<close>; a \<open>char\<close> stands for the code point of the same
    number, so the strings covered are those of code points below 256.
  \<^item> An argument that may be \<open>None\<close> is a \<open>string option\<close>.
  \<^item> The settings are a dictionary from strings to strings, as the settings table
    stores them: a map \<open>string \<rightharpoonup> string\<close>.
  \<^item> A raised exception is the \<open>Inl\<close> of a sum; \<open>try/except\<close> is a case split on it.
  \<^item> A \<open>datetime.time\<close> or \<open>datetime\<close> object is true in a condition, so
    \<open>if in_time\<close> asks whether the parser returned an object or \<open>None\<close>.
  \<^item> A Python \<open>float\<close> is a rational number and arithmetic is exact. \<open>round\<close> rounds
    to the nearest value. Where the exact value can lie halfway between two results
    (the hours of line 41), the side that the binary float falls on is a parameter of
    the model; elsewhere the exact value is rounded, ties to even.
  \<^item> \<open>datetime.strptime\<close> belongs to the standard library. It is embedded as CPython
    implements it: the format is turned into a regular expression, the expression is
    matched at the start of the text with backtracking, the first match has to reach the
    end of the text, and the numbers found have to form a valid date and time.
    The locale is the C locale, where \<open>%p\<close> stands for \<open>am|pm\<close>.
\<close>

subsection \<open>Exceptions\<close>

datatype error = ValueError

subsection \<open>Characters\<close>

definition is_digit :: "char \<Rightarrow> bool" where
  "is_digit c = (c \<in> set ''0123456789'')"

definition is_space :: "char \<Rightarrow> bool" where
  \<comment> \<open>\<open>str.isspace\<close> and the class \<open>\s\<close> below code point 256\<close>
  "is_space c = (c \<in> set [CHR 0x09, CHR 0x0A, CHR 0x0B, CHR 0x0C, CHR 0x0D,
                           CHR 0x1C, CHR 0x1D, CHR 0x1E, CHR 0x1F, CHR 0x20,
                           CHR 0x85, CHR 0xA0])"

definition lower :: "char \<Rightarrow> char" where
  \<comment> \<open>lower case of a letter of \<open>A-Z\<close>; the module lowers and compares only such letters\<close>
  "lower c =
     (case map_of (zip ''ABCDEFGHIJKLMNOPQRSTUVWXYZ'' ''abcdefghijklmnopqrstuvwxyz'') c of
        None \<Rightarrow> c | Some d \<Rightarrow> d)"

definition upper :: "char \<Rightarrow> char" where
  \<comment> \<open>upper case of a letter of \<open>a-z\<close>; \<open>str.upper\<close> turns no other character below
      code point 256 into \<open>A\<close>, \<open>M\<close> or \<open>P\<close>, which is all the module looks for\<close>
  "upper c =
     (case map_of (zip ''abcdefghijklmnopqrstuvwxyz'' ''ABCDEFGHIJKLMNOPQRSTUVWXYZ'') c of
        None \<Rightarrow> c | Some d \<Rightarrow> d)"

definition digit_val :: "char \<Rightarrow> nat" where
  "digit_val c = of_char c - 48"

definition int_of_digits :: "string \<Rightarrow> nat" where
  \<comment> \<open>\<open>int(s)\<close> on a text of decimal digits\<close>
  "int_of_digits s = foldl (\<lambda>a c. 10 * a + digit_val c) 0 s"

definition strip :: "string \<Rightarrow> string" where
  \<comment> \<open>\<open>str.strip()\<close>\<close>
  "strip s = rev (dropWhile is_space (rev (dropWhile is_space s)))"

definition str :: "string option \<Rightarrow> string" where
  \<comment> \<open>\<open>str(x)\<close> for \<open>x\<close> a string or \<open>None\<close>\<close>
  "str x = (case x of None \<Rightarrow> ''None'' | Some s \<Rightarrow> s)"

definition falsy :: "string option \<Rightarrow> bool" where
  \<comment> \<open>\<open>not x\<close> for \<open>x\<close> a string or \<open>None\<close>\<close>
  "falsy x = (case x of None \<Rightarrow> True | Some s \<Rightarrow> s = [])"

subsection \<open>Regular expressions with named groups\<close>

text \<open>
  A pattern maps a text to its matches at the start of the text, in the order in which a
  backtracking matcher finds them. A match is the groups found and the text left over.
\<close>

type_synonym groups = "(char \<times> string) list"
type_synonym rx = "string \<Rightarrow> (groups \<times> string) list"

definition rx_class :: "(char \<Rightarrow> bool) \<Rightarrow> string \<Rightarrow> (string \<times> string) list" where
  "rx_class P s = (case s of [] \<Rightarrow> [] | c # r \<Rightarrow> if P c then [([c], r)] else [])"

definition rx_cat ::
  "(string \<Rightarrow> (string \<times> string) list) \<Rightarrow> (string \<Rightarrow> (string \<times> string) list)
     \<Rightarrow> string \<Rightarrow> (string \<times> string) list" where
  "rx_cat p q s = concat (map (\<lambda>(a, r). map (\<lambda>(b, r'). (a @ b, r')) (q r)) (p s))"

definition rx_group :: "char \<Rightarrow> (string \<Rightarrow> (string \<times> string) list) list \<Rightarrow> rx" where
  \<comment> \<open>\<open>(?P<k>a1|a2|...)\<close>: the alternatives in their order\<close>
  "rx_group k alts s = concat (map (\<lambda>p. map (\<lambda>(a, r). ([(k, a)], r)) (p s)) alts)"

definition rx_lit :: "char \<Rightarrow> rx" where
  "rx_lit c s = (case s of [] \<Rightarrow> [] | d # r \<Rightarrow> if d = c then [([], r)] else [])"

fun rx_spaces :: rx where
  \<comment> \<open>\<open>\s+\<close>, greedy: the longest run first\<close>
  "rx_spaces [] = []"
| "rx_spaces (c # r) = (if is_space c then rx_spaces r @ [([], r)] else [])"

definition rx_then :: "rx \<Rightarrow> rx \<Rightarrow> rx" where
  "rx_then p q s = concat (map (\<lambda>(g, r). map (\<lambda>(h, r'). (g @ h, r')) (q r)) (p s))"

definition rx_empty :: rx where
  "rx_empty s = [([], s)]"

definition ch :: "char \<Rightarrow> string \<Rightarrow> (string \<times> string) list" where
  "ch c = rx_class (\<lambda>d. d = c)"

definition ch_i :: "char \<Rightarrow> string \<Rightarrow> (string \<times> string) list" where
  \<comment> \<open>a letter under \<open>re.IGNORECASE\<close>\<close>
  "ch_i c = rx_class (\<lambda>d. lower d = c)"

definition cls :: "string \<Rightarrow> string \<Rightarrow> (string \<times> string) list" where
  \<comment> \<open>a character class, given by its members: \<open>[0-2]\<close> is \<open>cls ''012''\<close>\<close>
  "cls members = rx_class (\<lambda>d. d \<in> set members)"

definition dig :: "string \<Rightarrow> (string \<times> string) list" where
  "dig = rx_class is_digit"

fun directive :: "char \<Rightarrow> rx option" where
  \<comment> \<open>the table of \<open>_strptime.TimeRE\<close>, for the directives this module uses\<close>
  "directive c =
    (if c = CHR ''I'' then Some (rx_group c
        [rx_cat (ch CHR ''1'') (cls ''012''),
         rx_cat (ch CHR ''0'') (cls ''123456789''),
         cls ''123456789''])
     else if c = CHR ''M'' then Some (rx_group c
        [rx_cat (cls ''012345'') dig, dig])
     else if c = CHR ''S'' then Some (rx_group c
        [rx_cat (ch CHR ''6'') (cls ''01''),
         rx_cat (cls ''012345'') dig, dig])
     else if c = CHR ''H'' then Some (rx_group c
        [rx_cat (ch CHR ''2'') (cls ''0123''),
         rx_cat (cls ''01'') dig, dig])
     else if c = CHR ''p'' then Some (rx_group c
        [rx_cat (ch_i CHR ''a'') (ch_i CHR ''m''),
         rx_cat (ch_i CHR ''p'') (ch_i CHR ''m'')])
     else if c = CHR ''Y'' then Some (rx_group c
        [rx_cat dig (rx_cat dig (rx_cat dig dig))])
     else if c = CHR ''m'' then Some (rx_group c
        [rx_cat (ch CHR ''1'') (cls ''012''),
         rx_cat (ch CHR ''0'') (cls ''123456789''),
         cls ''123456789''])
     else if c = CHR ''d'' then Some (rx_group c
        [rx_cat (ch CHR ''3'') (cls ''01''),
         rx_cat (cls ''12'') dig,
         rx_cat (ch CHR ''0'') (cls ''123456789''),
         cls ''123456789'',
         rx_cat (ch CHR '' '') (cls ''123456789'')])
     else None)"

function (sequential) pattern :: "string \<Rightarrow> rx option" where
  \<comment> \<open>\<open>TimeRE.pattern\<close>: a directive becomes its group, white space becomes \<open>\s+\<close>,
      any other character stands for itself\<close>
  "pattern [] = Some rx_empty"
| "pattern [c] =
    (if c = CHR ''%'' then None
     else if is_space c then Some rx_spaces
     else Some (rx_lit c))"
| "pattern (c # d # fmt) =
    (if c = CHR ''%'' then
       (case directive d of None \<Rightarrow> None
        | Some g \<Rightarrow> (case pattern fmt of None \<Rightarrow> None | Some p \<Rightarrow> Some (rx_then g p)))
     else if is_space c then
       (case pattern (dropWhile is_space (d # fmt)) of None \<Rightarrow> None
        | Some p \<Rightarrow> Some (rx_then rx_spaces p))
     else
       (case pattern (d # fmt) of None \<Rightarrow> None | Some p \<Rightarrow> Some (rx_then (rx_lit c) p)))"
  by pat_completeness auto
termination
  by (relation "measure length") (auto intro: le_less_trans [OF length_dropWhile_le])

subsection \<open>Dates, times and \<open>datetime.strptime\<close>\<close>

record time =
  hour :: nat
  minute :: nat
  second :: nat

record date =
  year :: nat
  month :: nat
  day :: nat

record datetime =
  date :: date
  time :: time

definition time_lt :: "time \<Rightarrow> time \<Rightarrow> bool" where
  \<comment> \<open>\<open>a < b\<close> on \<open>datetime.time\<close>: hour, then minute, then second\<close>
  "time_lt a b =
     (hour a < hour b \<or> (hour a = hour b \<and>
        (minute a < minute b \<or> (minute a = minute b \<and> second a < second b))))"

definition is_leap :: "nat \<Rightarrow> bool" where
  "is_leap y = (if y mod 400 = 0 then True else if y mod 100 = 0 then False else y mod 4 = 0)"

definition days_in_month :: "nat \<Rightarrow> nat \<Rightarrow> nat" where
  "days_in_month y m =
     (if m = 2 then (if is_leap y then 29 else 28)
      else if m \<in> set [4, 6, 9, 11] then 30 else 31)"

definition days_before_year :: "nat \<Rightarrow> int" where
  "days_before_year y =
     (let k = int y - 1 in k * 365 + k div 4 - k div 100 + k div 400)"

definition days_before_month :: "nat \<Rightarrow> nat \<Rightarrow> int" where
  "days_before_month y m = int (sum_list (map (days_in_month y) [1..<m]))"

definition toordinal :: "date \<Rightarrow> int" where
  "toordinal d = days_before_year (year d) + days_before_month (year d) (month d) + int (day d)"

definition seconds_of :: "time \<Rightarrow> int" where
  "seconds_of t = int (hour t) * 3600 + int (minute t) * 60 + int (second t)"

definition total_seconds :: "datetime \<Rightarrow> datetime \<Rightarrow> int" where
  \<comment> \<open>\<open>(a - b).total_seconds()\<close>\<close>
  "total_seconds a b =
     (toordinal (date a) - toordinal (date b)) * 86400 + (seconds_of (time a) - seconds_of (time b))"

definition combine :: "date \<Rightarrow> time \<Rightarrow> datetime" where
  "combine d t = \<lparr>date = d, time = t\<rparr>"

definition py_int :: "string \<Rightarrow> nat" where
  \<comment> \<open>\<open>int(s)\<close> on the text of a group: digits, after white space\<close>
  "py_int s = int_of_digits (strip s)"

definition group_or :: "groups \<Rightarrow> char \<Rightarrow> nat \<Rightarrow> nat" where
  "group_or g k dflt = (case map_of g k of None \<Rightarrow> dflt | Some t \<Rightarrow> py_int t)"

definition hour_of_groups :: "groups \<Rightarrow> nat" where
  \<comment> \<open>\<open>%H\<close>, or \<open>%I\<close> with the \<open>%p\<close> found beside it\<close>
  "hour_of_groups g =
     (case map_of g CHR ''H'' of Some t \<Rightarrow> py_int t
      | None \<Rightarrow>
        (case map_of g CHR ''I'' of None \<Rightarrow> 0
         | Some t \<Rightarrow>
           (let h = py_int t;
                ampm = map lower (case map_of g CHR ''p'' of None \<Rightarrow> [] | Some a \<Rightarrow> a)
            in if ampm = [] \<or> ampm = ''am'' then (if h = 12 then 0 else h)
               else if ampm = ''pm'' then (if h = 12 then h else h + 12)
               else h)))"

definition make_datetime :: "groups \<Rightarrow> error + datetime" where
  \<comment> \<open>the defaults of \<open>_strptime\<close> and the range checks of the \<open>datetime\<close> constructor\<close>
  "make_datetime g =
     (let y = group_or g CHR ''Y'' 1900;
          m = group_or g CHR ''m'' 1;
          d = group_or g CHR ''d'' 1;
          hh = hour_of_groups g;
          mm = group_or g CHR ''M'' 0;
          ss = group_or g CHR ''S'' 0
      in if 1 \<le> y \<and> y \<le> 9999 \<and> 1 \<le> m \<and> m \<le> 12 \<and> 1 \<le> d \<and> d \<le> days_in_month y m
            \<and> hh \<le> 23 \<and> mm \<le> 59 \<and> ss \<le> 59
         then Inr \<lparr>date = \<lparr>year = y, month = m, day = d\<rparr>,
                   time = \<lparr>hour = hh, minute = mm, second = ss\<rparr>\<rparr>
         else Inl ValueError)"

definition strptime :: "string \<Rightarrow> string \<Rightarrow> error + datetime" where
  "strptime data_string fmt =
     (case pattern fmt of None \<Rightarrow> Inl ValueError
      | Some p \<Rightarrow>
        (case p data_string of [] \<Rightarrow> Inl ValueError
         | (g, rest) # _ \<Rightarrow> if rest = [] then make_datetime g else Inl ValueError))"

subsection \<open>The time parsers of \<open>calculate_status\<close>\<close>

definition formats :: "string list" where
  "formats = [''%I:%M %p'', ''%I:%M:%S %p'', ''%H:%M:%S'', ''%H:%M'']"

fun try_formats :: "string \<Rightarrow> string list \<Rightarrow> datetime option" where
  \<comment> \<open>the loop \<open>for fmt in formats: try: return strptime(..., fmt) except ValueError: continue\<close>,
      ending in \<open>return None\<close>\<close>
  "try_formats s [] = None"
| "try_formats s (fmt # fmts) =
     (case strptime s fmt of Inr d \<Rightarrow> Some d | Inl ValueError \<Rightarrow> try_formats s fmts)"

definition parse_time_simple :: "string option \<Rightarrow> time option" where
  \<comment> \<open>lines 75 to 82\<close>
  "parse_time_simple t_str = map_option time (try_formats (strip (str t_str)) formats)"

definition parse_time :: "string option \<Rightarrow> time option" where
  \<comment> \<open>lines 109 to 116, inside \<open>calculate_status\<close>\<close>
  "parse_time t_str = map_option time (try_formats (strip (str t_str)) formats)"

definition parse_time_obj :: "string option \<Rightarrow> datetime option" where
  \<comment> \<open>lines 149 to 155\<close>
  "parse_time_obj t_str = try_formats (strip (str t_str)) formats"

subsection \<open>Numbers\<close>

datatype pyfloat = Finite rat | PosInf | NegInf | NaN

definition float_gt :: "rat \<Rightarrow> pyfloat \<Rightarrow> bool" where
  \<comment> \<open>\<open>x > y\<close> for a finite \<open>x\<close>\<close>
  "float_gt x y = (case y of Finite r \<Rightarrow> r < x | PosInf \<Rightarrow> False | NegInf \<Rightarrow> True | NaN \<Rightarrow> False)"

definition is_float_space :: "char \<Rightarrow> bool" where
  \<comment> \<open>the white space that \<open>float(s)\<close> strips\<close>
  "is_float_space c = (c \<in> set [CHR 0x09, CHR 0x0A, CHR 0x0B, CHR 0x0C, CHR 0x0D, CHR 0x20,
                                 CHR 0x85, CHR 0xA0])"

fun drop_underscores :: "char \<Rightarrow> string \<Rightarrow> string option" where
  \<comment> \<open>an underscore is allowed between two digits only\<close>
  "drop_underscores prev [] = (if prev = CHR ''_'' then None else Some [])"
| "drop_underscores prev (c # r) =
     (if c = CHR ''_'' then (if is_digit prev then drop_underscores c r else None)
      else if prev = CHR ''_'' \<and> \<not> is_digit c then None
      else map_option ((#) c) (drop_underscores c r))"

definition split_sign :: "string \<Rightarrow> int \<times> string" where
  "split_sign s =
     (case s of [] \<Rightarrow> (1, [])
      | c # r \<Rightarrow> if c = CHR ''+'' then (1, r) else if c = CHR ''-'' then (-1, r) else (1, s))"

definition pow10 :: "int \<Rightarrow> rat" where
  "pow10 e = (if 0 \<le> e then 10 ^ nat e else 1 / 10 ^ nat (- e))"

definition parse_number :: "string \<Rightarrow> error + pyfloat" where
  \<comment> \<open>a decimal numeral with an optional fraction and exponent, or \<open>inf\<close>,
      \<open>infinity\<close>, \<open>nan\<close>; its value is taken exactly\<close>
  "parse_number u =
     (let (sg, r1) = split_sign u; w = map lower r1
      in if w = ''inf'' \<or> w = ''infinity'' then Inr (if sg = 1 then PosInf else NegInf)
         else if w = ''nan'' then Inr NaN
         else
           (let ip = takeWhile is_digit r1; r2 = dropWhile is_digit r1;
                (fp, r3) = (case r2 of [] \<Rightarrow> ([], r2)
                            | c # r \<Rightarrow> if c = CHR ''.''
                                then (takeWhile is_digit r, dropWhile is_digit r) else ([], r2));
                mant = of_int sg * of_nat (int_of_digits (ip @ fp)) / 10 ^ length fp
            in if ip = [] \<and> fp = [] then Inl ValueError
               else (case r3 of [] \<Rightarrow> Inr (Finite mant)
                     | e # r4 \<Rightarrow>
                       if lower e = CHR ''e'' then
                         (let (es, r5) = split_sign r4
                          in if r5 = [] then Inl ValueError
                             else if list_all is_digit r5
                             then Inr (Finite (mant * pow10 (es * int (int_of_digits r5))))
                             else Inl ValueError)
                       else Inl ValueError)))"

definition float_of_str :: "string \<Rightarrow> error + pyfloat" where
  \<comment> \<open>\<open>float(s)\<close> for a string\<close>
  "float_of_str s =
     (case drop_underscores CHR 0x00
             (rev (dropWhile is_float_space (rev (dropWhile is_float_space s)))) of
        None \<Rightarrow> Inl ValueError
      | Some u \<Rightarrow> parse_number u)"

definition round_half_even :: "rat \<Rightarrow> int" where
  \<comment> \<open>\<open>round(x)\<close>: to the nearest integer, ties to even\<close>
  "round_half_even x =
     (let f = \<lfloor>x\<rfloor>; d = x - of_int f
      in if d < 1 / 2 then f else if 1 / 2 < d then f + 1 else if even f then f else f + 1)"

definition round2 :: "rat \<Rightarrow> rat" where
  \<comment> \<open>\<open>round(duration_mins, 2)\<close> at line 163: in hundredths of a minute the exact
      value is seconds * 5 / 3, which is never halfway between two integers\<close>
  "round2 x = of_int (round_half_even (x * 100)) / 100"

definition round_ties :: "(rat \<Rightarrow> bool) \<Rightarrow> rat \<Rightarrow> int" where
  \<comment> \<open>rounding to the nearest integer; at a value halfway between two integers,
      \<open>up\<close> tells whether the upper one is taken\<close>
  "round_ties up x =
     (let f = \<lfloor>x\<rfloor>; d = x - of_int f
      in if d < 1 / 2 then f else if 1 / 2 < d then f + 1 else if up x then f + 1 else f)"

definition round2_ties :: "(rat \<Rightarrow> bool) \<Rightarrow> rat \<Rightarrow> rat" where
  \<comment> \<open>\<open>round(hours, 2)\<close> at line 41, where \<open>hours\<close> is the float nearest to
      seconds / 3600. In hundredths of an hour the exact quotient is seconds / 36: it is
      either halfway between two integers or at least 1/36 away from halfway, and the float
      differs from it by less than \<open>10^-12\<close>, so away from halfway the float rounds as the
      exact quotient does. Exactly halfway (the seconds are 18 modulo 36) the float lies
      on one side (0.005 is stored above, 0.015 below), and \<open>up\<close> tells on which: the
      model leaves it open, and the properties proved hold for every \<open>up\<close>\<close>
  "round2_ties up x = of_int (round_ties up (x * 100)) / 100"

definition ties_up :: "rat \<Rightarrow> bool" where
  "ties_up x = True"

definition ties_down :: "rat \<Rightarrow> bool" where
  "ties_down x = False"

definition trunc :: "rat \<Rightarrow> int" where
  \<comment> \<open>\<open>int(x)\<close>: towards zero\<close>
  "trunc x = (if 0 \<le> x then \<lfloor>x\<rfloor> else \<lceil>x\<rceil>)"

function str_nat :: "nat \<Rightarrow> string" where
  "str_nat n =
     (if n < 10 then [''0123456789'' ! n]
      else str_nat (n div 10) @ [''0123456789'' ! (n mod 10)])"
  by pat_completeness auto
termination
  by (relation "measure id") auto

declare str_nat.simps [simp del]

definition str_int :: "int \<Rightarrow> string" where
  \<comment> \<open>\<open>str(i)\<close>, what an f-string prints for an \<open>int\<close>\<close>
  "str_int i = (if i < 0 then CHR ''-'' # str_nat (nat (- i)) else str_nat (nat i))"

subsection \<open>\<open>calculate_working_hours\<close>\<close>

fun contains :: "string \<Rightarrow> string \<Rightarrow> bool" where
  \<comment> \<open>\<open>sub in s\<close>\<close>
  "contains sub [] = (sub = [])"
| "contains sub (c # r) = (take (length sub) (c # r) = sub \<or> contains sub r)"

definition wh_time_obj :: "string option \<Rightarrow> error + datetime" where
  \<comment> \<open>the inner \<open>parse_time(time_str, date_str)\<close>, lines 15 to 28: the value of \<open>time_obj\<close>\<close>
  "wh_time_obj t =
     (let time_str = strip (str t);
          u = map upper time_str
      in if contains ''AM'' u \<or> contains ''PM'' u then
           (case strptime time_str ''%I:%M %p'' of
              Inr d \<Rightarrow> Inr d
            | Inl ValueError \<Rightarrow> strptime time_str ''%I:%M:%S %p'')
         else if count_list time_str CHR '':'' = 2 then strptime time_str ''%H:%M:%S''
         else strptime time_str ''%H:%M'')"

definition wh_parse_time :: "string option \<Rightarrow> string \<Rightarrow> error + datetime" where
  \<comment> \<open>the inner \<open>parse_time(time_str, date_str)\<close>, lines 14 to 32\<close>
  "wh_parse_time t date_str =
     (case wh_time_obj t of Inl e \<Rightarrow> Inl e
      | Inr time_obj \<Rightarrow>
        (case strptime date_str ''%Y-%m-%d'' of Inl e \<Rightarrow> Inl e
         | Inr date_obj \<Rightarrow> Inr (combine (date date_obj) (time time_obj))))"

definition calculate_working_hours ::
  "(rat \<Rightarrow> bool) \<Rightarrow> string option \<Rightarrow> string option \<Rightarrow> string \<Rightarrow> rat option" where
  \<comment> \<open>lines 7 to 44; the first argument is the side the float falls on when the exact
      hours are halfway between two hundredths, see \<open>round2_ties\<close>\<close>
  "calculate_working_hours up punch_in punch_out date_str =
     (if falsy punch_in \<or> falsy punch_out then None
      else
        (case wh_parse_time punch_in date_str of Inl e \<Rightarrow> None
         | Inr punch_in_dt \<Rightarrow>
           (case wh_parse_time punch_out date_str of Inl e \<Rightarrow> None
            | Inr punch_out_dt \<Rightarrow>
              (let hours = of_int (total_seconds punch_out_dt punch_in_dt) / 3600
               in Some (max 0 (round2_ties up hours))))))"

subsection \<open>\<open>calculate_status\<close>\<close>

record result =
  status :: string
  is_late :: bool
  break_duration :: rat
  break_exceeded :: bool
  is_break_outside_window :: bool
  is_early_departure :: bool

type_synonym settings = "string \<rightharpoonup> string"

definition HALF_DAY_HOURS :: rat where
  "HALF_DAY_HOURS = 5"

definition get :: "settings \<Rightarrow> string \<Rightarrow> string \<Rightarrow> string" where
  \<comment> \<open>\<open>settings.get(key, default)\<close>\<close>
  "get s k dflt = (case s k of None \<Rightarrow> dflt | Some v \<Rightarrow> v)"

definition max_break_of :: "settings \<Rightarrow> error + pyfloat" where
  \<comment> \<open>line 51: \<open>float(settings.get('max_break_duration', 60))\<close>; the default is the
      number 60, a stored value is a string\<close>
  "max_break_of s =
     (case s ''max_break_duration'' of None \<Rightarrow> Inr (Finite 60) | Some v \<Rightarrow> float_of_str v)"

definition half_day_threshold_of :: "settings \<Rightarrow> error + time" where
  \<comment> \<open>line 86, outside every \<open>try\<close>\<close>
  "half_day_threshold_of s =
     (case strptime (get s ''half_day_time'' ''14:00'') ''%H:%M'' of
        Inl e \<Rightarrow> Inl e | Inr d \<Rightarrow> Inr (time d))"

definition start_threshold_of :: "settings \<Rightarrow> time" where
  \<comment> \<open>lines 123 to 126: the stored value, or 09:30 when it does not parse\<close>
  "start_threshold_of s =
     (case strptime (get s ''standard_start_time'' ''09:30'') ''%H:%M'' of
        Inr d \<Rightarrow> time d
      | Inl e \<Rightarrow> \<lparr>hour = 9, minute = 30, second = 0\<rparr>)"

definition end_threshold_of :: "settings \<Rightarrow> time" where
  \<comment> \<open>lines 135 to 138: the stored value, or 18:30 when it does not parse\<close>
  "end_threshold_of s =
     (case strptime (get s ''standard_end_time'' ''18:30'') ''%H:%M'' of
        Inr d \<Rightarrow> time d
      | Inl e \<Rightarrow> \<lparr>hour = 18, minute = 30, second = 0\<rparr>)"

definition initial_result :: result where
  \<comment> \<open>lines 56 to 63\<close>
  "initial_result =
     \<lparr>status = ''Absent'', is_late = False, break_duration = 0, break_exceeded = False,
      is_break_outside_window = False, is_early_departure = False\<rparr>"

definition is_half_day_of ::
  "rat option \<Rightarrow> time option \<Rightarrow> time option \<Rightarrow> time \<Rightarrow> bool" where
  \<comment> \<open>lines 89 to 101: the three conditions\<close>
  "is_half_day_of working_hours in_time out_time half_day_threshold =
     ((case working_hours of None \<Rightarrow> False | Some w \<Rightarrow> w < HALF_DAY_HOURS)
      \<or> (case out_time of None \<Rightarrow> False | Some t \<Rightarrow> time_lt t half_day_threshold)
      \<or> (case in_time of None \<Rightarrow> False | Some t \<Rightarrow> time_lt half_day_threshold t))"

definition half_day_rule ::
  "rat option \<Rightarrow> time option \<Rightarrow> time option \<Rightarrow> time \<Rightarrow> result \<Rightarrow> result" where
  \<comment> \<open>lines 103 and 104\<close>
  "half_day_rule working_hours in_time out_time half_day_threshold r =
     (if is_half_day_of working_hours in_time out_time half_day_threshold
      then r\<lparr>status := ''Half Day''\<rparr> else r)"

definition late_rule :: "settings \<Rightarrow> time option \<Rightarrow> result \<Rightarrow> result" where
  \<comment> \<open>lines 121 to 131\<close>
  "late_rule s in_time r =
     (case in_time of None \<Rightarrow> r
      | Some t \<Rightarrow>
        if time_lt (start_threshold_of s) t
        then (let r1 = r\<lparr>is_late := True\<rparr>
              in if status r1 = ''Present'' then r1\<lparr>status := ''Late''\<rparr> else r1)
        else r)"

definition early_rule :: "settings \<Rightarrow> time option \<Rightarrow> result \<Rightarrow> result" where
  \<comment> \<open>lines 133 to 141\<close>
  "early_rule s out_time r =
     (case out_time of None \<Rightarrow> r
      | Some t \<Rightarrow> if time_lt t (end_threshold_of s) then r\<lparr>is_early_departure := True\<rparr> else r)"

definition window_rule :: "settings \<Rightarrow> datetime \<Rightarrow> datetime \<Rightarrow> result \<Rightarrow> result" where
  \<comment> \<open>lines 169 to 183: an unreadable window leaves the flag as it is\<close>
  "window_rule s bs be r =
     (case strptime (get s ''standard_break_start'' ''13:00'') ''%H:%M'' of
        Inl e \<Rightarrow> r
      | Inr std_bs \<Rightarrow>
        (case strptime (get s ''standard_break_end'' ''14:00'') ''%H:%M'' of
           Inl e \<Rightarrow> r
         | Inr std_be \<Rightarrow>
           if time_lt (time bs) (time std_bs) \<or> time_lt (time std_be) (time be)
           then r\<lparr>is_break_outside_window := True\<rparr> else r))"

definition break_rule ::
  "settings \<Rightarrow> pyfloat \<Rightarrow> string option \<Rightarrow> string option \<Rightarrow> result \<Rightarrow> result" where
  \<comment> \<open>lines 147 to 186\<close>
  "break_rule s max_break break_start break_end r =
     (if falsy break_start \<or> falsy break_end then r
      else
        (case parse_time_obj break_start of None \<Rightarrow> r
         | Some bs \<Rightarrow>
           (case parse_time_obj break_end of None \<Rightarrow> r
            | Some be \<Rightarrow>
              (let duration_mins = of_int (total_seconds be bs) / 60;
                   r1 = r\<lparr>break_duration := round2 duration_mins\<rparr>;
                   r2 = (if float_gt duration_mins max_break
                         then r1\<lparr>break_exceeded := True\<rparr> else r1)
               in window_rule s bs be r2))))"

definition calculate_status ::
  "string option \<Rightarrow> string option \<Rightarrow> rat option \<Rightarrow> string \<Rightarrow> settings
     \<Rightarrow> string option \<Rightarrow> string option \<Rightarrow> error + result" where
  "calculate_status punch_in punch_out working_hours date_str s break_start break_end =
     (case max_break_of s of
        Inl e \<Rightarrow> Inl e
      | Inr max_break \<Rightarrow>
        if falsy punch_in then Inr initial_result
        else
          (let r0 = initial_result
                      \<lparr>status := (if falsy punch_out then ''Incomplete'' else ''Present'')\<rparr>;
               in_time = parse_time_simple punch_in;
               out_time = parse_time_simple punch_out
           in case half_day_threshold_of s of
                Inl e \<Rightarrow> Inl e
              | Inr half_day_threshold \<Rightarrow>
                (let r1 = half_day_rule working_hours in_time out_time half_day_threshold r0;
                     r2 = late_rule s (parse_time punch_in) r1;
                     r3 = early_rule s (parse_time punch_out) r2
                 in Inr (break_rule s max_break break_start break_end r3))))"

subsection \<open>\<open>format_hours\<close>\<close>

definition hours_minutes :: "rat \<Rightarrow> int \<times> int" where
  \<comment> \<open>lines 195 to 200: the hours and the minutes that are printed\<close>
  "hours_minutes decimal_hours =
     (let hours = trunc decimal_hours;
          minutes = round_half_even ((decimal_hours - of_int hours) * 60)
      in if minutes = 60 then (hours + 1, 0) else (hours, minutes))"

definition join :: "string list \<Rightarrow> string" where
  \<comment> \<open>\<open>" ".join(parts)\<close>\<close>
  "join parts = (case parts of [] \<Rightarrow> [] | p # ps \<Rightarrow> foldl (\<lambda>a b. a @ '' '' @ b) p ps)"

definition format_hours :: "rat option \<Rightarrow> string" where
  "format_hours decimal_hours =
     (case decimal_hours of None \<Rightarrow> []
      | Some x \<Rightarrow>
        (let (hours, minutes) = hours_minutes x
         in if hours = 0 \<and> minutes = 0 then ''0h 0m''
            else join ((if 0 < hours then [str_int hours @ ''h''] else [])
                       @ (if 0 < minutes then [str_int minutes @ ''m''] else []))))"

subsection \<open>Predicates of the statements\<close>

definition digits :: "string \<Rightarrow> bool" where
  \<comment> \<open>a text of one or more decimal digits\<close>
  "digits a = (a \<noteq> [] \<and> list_all is_digit a)"

definition valid_time :: "time \<Rightarrow> bool" where
  \<comment> \<open>the ranges that the \<open>datetime\<close> constructor accepts\<close>
  "valid_time t = (hour t \<le> 23 \<and> minute t \<le> 59 \<and> second t \<le> 59)"

definition has_ampm :: "string \<Rightarrow> bool" where
  \<comment> \<open>the test of line 18: \<open>'AM' in time_str.upper() or 'PM' in time_str.upper()\<close>\<close>
  "has_ampm x = (contains ''AM'' (map upper x) \<or> contains ''PM'' (map upper x))"

section \<open>Properties\<close>

subsection \<open>Evaluation and the steps of \<open>calculate_status\<close>\<close>

lemmas rx_defs = rx_then_def rx_group_def rx_cat_def rx_class_def rx_lit_def rx_empty_def
  ch_def ch_i_def cls_def dig_def is_digit_def lower_def is_space_def

lemmas strptime_defs = strptime_def make_datetime_def group_or_def hour_of_groups_def
  py_int_def int_of_digits_def digit_val_def days_in_month_def is_leap_def strip_def

lemmas parse_defs = parse_time_simple_def parse_time_def parse_time_obj_def formats_def str_def

lemmas float_defs = float_of_str_def parse_number_def split_sign_def is_float_space_def
  pow10_def is_digit_def lower_def int_of_digits_def digit_val_def

lemma parse_time_eq: "parse_time x = parse_time_simple x"
  by (simp add: parse_time_def parse_time_simple_def)

lemma try_formats_falsy: "falsy x \<Longrightarrow> try_formats (strip (str x)) formats = None"
  by (cases x) (simp_all add: falsy_def parse_defs strptime_defs rx_defs)

lemma parse_time_simple_falsy: "falsy x \<Longrightarrow> parse_time_simple x = None"
  by (simp add: parse_time_simple_def try_formats_falsy)

lemma parse_time_obj_falsy: "falsy x \<Longrightarrow> parse_time_obj x = None"
  by (simp add: parse_time_obj_def try_formats_falsy)

lemma calculate_status_absent:
  "falsy punch_in \<Longrightarrow> max_break_of s = Inr mb \<Longrightarrow>
   calculate_status punch_in punch_out working_hours date_str s break_start break_end
     = Inr initial_result"
  by (simp add: calculate_status_def)

lemma calculate_status_present:
  "\<not> falsy punch_in \<Longrightarrow> max_break_of s = Inr mb \<Longrightarrow> half_day_threshold_of s = Inr thr \<Longrightarrow>
   calculate_status punch_in punch_out working_hours date_str s break_start break_end
     = Inr (break_rule s mb break_start break_end
         (early_rule s (parse_time_simple punch_out)
           (late_rule s (parse_time_simple punch_in)
             (half_day_rule working_hours (parse_time_simple punch_in)
                (parse_time_simple punch_out) thr
                (initial_result
                   \<lparr>status := (if falsy punch_out then ''Incomplete'' else ''Present'')\<rparr>)))))"
  by (simp add: calculate_status_def Let_def parse_time_eq)

lemma calculate_status_raises_iff:
  "(\<exists>e. calculate_status punch_in punch_out working_hours date_str s break_start break_end = Inl e)
   \<longleftrightarrow> (isl (max_break_of s) \<or> (\<not> falsy punch_in \<and> isl (half_day_threshold_of s)))"
  by (auto simp: calculate_status_def Let_def split: sum.splits)

lemma window_rule_fields [simp]:
  "status (window_rule s bs be r) = status r"
  "is_late (window_rule s bs be r) = is_late r"
  "is_early_departure (window_rule s bs be r) = is_early_departure r"
  "break_duration (window_rule s bs be r) = break_duration r"
  "break_exceeded (window_rule s bs be r) = break_exceeded r"
  by (simp_all add: window_rule_def split: sum.splits)

lemma break_rule_fields [simp]:
  "status (break_rule s mb bs be r) = status r"
  "is_late (break_rule s mb bs be r) = is_late r"
  "is_early_departure (break_rule s mb bs be r) = is_early_departure r"
  by (simp_all add: break_rule_def Let_def split: option.splits)

lemma early_rule_fields [simp]:
  "status (early_rule s t r) = status r"
  "is_late (early_rule s t r) = is_late r"
  "break_duration (early_rule s t r) = break_duration r"
  "break_exceeded (early_rule s t r) = break_exceeded r"
  "is_break_outside_window (early_rule s t r) = is_break_outside_window r"
  by (simp_all add: early_rule_def split: option.splits)

lemma late_rule_fields [simp]:
  "is_early_departure (late_rule s t r) = is_early_departure r"
  "break_duration (late_rule s t r) = break_duration r"
  "break_exceeded (late_rule s t r) = break_exceeded r"
  "is_break_outside_window (late_rule s t r) = is_break_outside_window r"
  by (simp_all add: late_rule_def Let_def split: option.splits)

lemma half_day_rule_fields [simp]:
  "is_late (half_day_rule w i o' thr r) = is_late r"
  "is_early_departure (half_day_rule w i o' thr r) = is_early_departure r"
  "break_duration (half_day_rule w i o' thr r) = break_duration r"
  "break_exceeded (half_day_rule w i o' thr r) = break_exceeded r"
  "is_break_outside_window (half_day_rule w i o' thr r) = is_break_outside_window r"
  by (simp_all add: half_day_rule_def)

lemma parse_time_obj_not_falsy: "parse_time_obj x = Some d \<Longrightarrow> \<not> falsy x"
  using parse_time_obj_falsy by fastforce

lemma break_rule_parsed:
  assumes "parse_time_obj break_start = Some bs" and "parse_time_obj break_end = Some be"
  shows "break_rule s mb break_start break_end r =
     window_rule s bs be
       (let r1 = r\<lparr>break_duration := round2 (of_int (total_seconds be bs) / 60)\<rparr>
        in if float_gt (of_int (total_seconds be bs) / 60) mb
           then r1\<lparr>break_exceeded := True\<rparr> else r1)"
  using assms parse_time_obj_not_falsy [OF assms(1)] parse_time_obj_not_falsy [OF assms(2)]
  by (simp add: break_rule_def Let_def)

lemma round_half_even_bounds: "\<lfloor>y\<rfloor> \<le> round_half_even y \<and> round_half_even y \<le> \<lfloor>y\<rfloor> + 1"
  by (simp add: round_half_even_def Let_def)

lemma minutes_range:
  assumes "0 \<le> x"
  shows "0 \<le> round_half_even ((x - of_int (trunc x)) * 60)"
    and "round_half_even ((x - of_int (trunc x)) * 60) \<le> 60"
proof -
  let ?y = "(x - of_int (trunc x)) * 60"
  have t: "trunc x = \<lfloor>x\<rfloor>" using assms by (simp add: trunc_def)
  have "0 \<le> x - of_int \<lfloor>x\<rfloor>" "x - of_int \<lfloor>x\<rfloor> < 1"
    by linarith+
  then have y: "0 \<le> ?y" "?y < 60" using t by simp_all
  then have "0 \<le> \<lfloor>?y\<rfloor>" "\<lfloor>?y\<rfloor> < 60"
    by (simp_all add: floor_less_iff)
  with round_half_even_bounds [of ?y]
  show "0 \<le> round_half_even ?y" "round_half_even ?y \<le> 60" by linarith+
qed

lemma round_half_even_of_int: "round_half_even (of_int k) = k"
  by (simp add: round_half_even_def)

lemma round2_of_int: "round2 (of_int k) = of_int k"
proof -
  have "of_int k * 100 = (of_int (k * 100) :: rat)" by simp
  then have "round_half_even (of_int k * 100) = k * 100"
    using round_half_even_of_int [of "k * 100"] by simp
  then show ?thesis by (simp add: round2_def)
qed

subsection \<open>What a match of each format looks like\<close>

lemma rx_class_E:
  "(a, r) \<in> set (rx_class P s) \<Longrightarrow> \<exists>c. s = c # r \<and> a = [c] \<and> P c"
  by (auto simp: rx_class_def split: list.splits if_splits)

lemma rx_cat_E:
  "(a, r) \<in> set (rx_cat p q s) \<Longrightarrow>
     \<exists>a1 a2 r1. (a1, r1) \<in> set (p s) \<and> (a2, r) \<in> set (q r1) \<and> a = a1 @ a2"
  by (auto simp: rx_cat_def)

lemma rx_group_E:
  "(g, r) \<in> set (rx_group k alts s) \<Longrightarrow>
     \<exists>p a. p \<in> set alts \<and> (a, r) \<in> set (p s) \<and> g = [(k, a)]"
  by (auto simp: rx_group_def)

lemma rx_then_E:
  "(g, r) \<in> set (rx_then p q s) \<Longrightarrow>
     \<exists>g1 g2 r1. (g1, r1) \<in> set (p s) \<and> (g2, r) \<in> set (q r1) \<and> g = g1 @ g2"
  by (auto simp: rx_then_def)

lemma rx_lit_E:
  "(g, r) \<in> set (rx_lit c s) \<Longrightarrow> s = c # r \<and> g = []"
  by (auto simp: rx_lit_def split: list.splits if_splits)

lemma rx_spaces_E:
  "(g, r) \<in> set (rx_spaces s) \<Longrightarrow> \<exists>ws. ws \<noteq> [] \<and> s = ws @ r \<and> list_all is_space ws \<and> g = []"
proof (induction s)
  case Nil
  then show ?case by simp
next
  case (Cons c s)
  then have sp: "is_space c" and "(g, r) \<in> set (rx_spaces s) \<or> (g = [] \<and> r = s)"
    by (auto split: if_splits)
  then show ?case
  proof (elim disjE)
    assume "(g, r) \<in> set (rx_spaces s)"
    then obtain ws where "ws \<noteq> []" "s = ws @ r" "list_all is_space ws" "g = []"
      using Cons.IH by blast
    then show ?thesis using sp by (intro exI [of _ "c # ws"]) simp
  next
    assume "g = [] \<and> r = s"
    then show ?thesis using sp by (intro exI [of _ "[c]"]) simp
  qed
qed

lemma digit_group_E:
  assumes "k \<in> set ''IMSH''" and "directive k = Some p" and "(g, r) \<in> set (p s)"
  shows "\<exists>a. g = [(k, a)] \<and> s = a @ r \<and> a \<noteq> [] \<and> list_all is_digit a"
  using assms
  by (auto simp: rx_group_def rx_cat_def rx_class_def ch_def cls_def dig_def is_digit_def
      split: list.splits if_splits)

lemma p_group_E:
  assumes "directive CHR ''p'' = Some p" and "(g, r) \<in> set (p s)"
  shows "\<exists>c1 c2. g = [(CHR ''p'', [c1, c2])] \<and> s = c1 # c2 # r
           \<and> (lower c1 = CHR ''a'' \<or> lower c1 = CHR ''p'') \<and> lower c2 = CHR ''m''"
  using assms
  by (auto simp: rx_group_def rx_cat_def rx_class_def ch_i_def split: list.splits if_splits)


lemma rx_empty_E: "(g, r) \<in> set (rx_empty s) \<Longrightarrow> g = [] \<and> r = s"
  by (simp add: rx_empty_def)

lemma strptime_E:
  assumes "strptime s fmt = Inr d"
  obtains p g ms where "pattern fmt = Some p" and "p s = (g, []) # ms" and "make_datetime g = Inr d"
  using assms by (auto simp: strptime_def split: option.splits list.splits if_splits)

lemma make_datetime_E:
  assumes "make_datetime g = Inr d"
  shows "date d = \<lparr>year = group_or g CHR ''Y'' 1900, month = group_or g CHR ''m'' 1,
                   day = group_or g CHR ''d'' 1\<rparr>"
    and "hour (time d) \<le> 23" and "minute (time d) \<le> 59" and "second (time d) \<le> 59"
  using assms by (auto simp: make_datetime_def Let_def split: if_splits)

lemma fmt_HM_E:
  assumes "pattern ''%H:%M'' = Some p" and "(g, r) \<in> set (p s)"
  shows "\<exists>a b. g = [(CHR ''H'', a), (CHR ''M'', b)] \<and> s = a @ CHR '':'' # b @ r
           \<and> digits a \<and> digits b"
proof -
  obtain pH pM where d: "directive CHR ''H'' = Some pH" "directive CHR ''M'' = Some pM"
    by simp
  have p: "p = rx_then pH (rx_then (rx_lit CHR '':'') (rx_then pM rx_empty))"
    using assms(1) d by (simp add: is_space_def)
  from assms(2) [unfolded p] obtain g1 g2 g3 g4 r1 r2 r3 where
    "(g1, r1) \<in> set (pH s)" "(g2, r2) \<in> set (rx_lit CHR '':'' r1)"
    "(g3, r3) \<in> set (pM r2)" "(g4, r) \<in> set (rx_empty r3)" "g = g1 @ g2 @ g3 @ g4"
    by (fastforce dest!: rx_then_E)
  moreover from this obtain a b where "g1 = [(CHR ''H'', a)]" "s = a @ r1" "digits a"
    "g3 = [(CHR ''M'', b)]" "r2 = b @ r3" "digits b"
    using digit_group_E [OF _ d(1)] digit_group_E [OF _ d(2)] unfolding digits_def
    by (metis list.set_intros(1,2))
  ultimately show ?thesis
    by (auto dest!: rx_lit_E rx_empty_E)
qed


lemma fmt_HMS_E:
  assumes "pattern ''%H:%M:%S'' = Some p" and "(g, r) \<in> set (p s)"
  shows "\<exists>a b c. g = [(CHR ''H'', a), (CHR ''M'', b), (CHR ''S'', c)]
           \<and> s = a @ CHR '':'' # b @ CHR '':'' # c @ r \<and> digits a \<and> digits b \<and> digits c"
proof -
  obtain pH pM pS where d: "directive CHR ''H'' = Some pH" "directive CHR ''M'' = Some pM"
    "directive CHR ''S'' = Some pS"
    by simp
  have p: "p = rx_then pH (rx_then (rx_lit CHR '':'') (rx_then pM
               (rx_then (rx_lit CHR '':'') (rx_then pS rx_empty))))"
    using assms(1) d by (simp add: is_space_def)
  from assms(2) [unfolded p] obtain g1 g2 g3 g4 g5 g6 r1 r2 r3 r4 r5 where
    "(g1, r1) \<in> set (pH s)" "(g2, r2) \<in> set (rx_lit CHR '':'' r1)"
    "(g3, r3) \<in> set (pM r2)" "(g4, r4) \<in> set (rx_lit CHR '':'' r3)"
    "(g5, r5) \<in> set (pS r4)" "(g6, r) \<in> set (rx_empty r5)"
    "g = g1 @ g2 @ g3 @ g4 @ g5 @ g6"
    by (fastforce dest!: rx_then_E)
  moreover from this obtain a b c where "g1 = [(CHR ''H'', a)]" "s = a @ r1" "digits a"
    "g3 = [(CHR ''M'', b)]" "r2 = b @ r3" "digits b"
    "g5 = [(CHR ''S'', c)]" "r4 = c @ r5" "digits c"
    using digit_group_E [OF _ d(1)] digit_group_E [OF _ d(2)] digit_group_E [OF _ d(3)]
    unfolding digits_def
    by (metis list.set_intros(1,2))
  ultimately show ?thesis
    by (auto dest!: rx_lit_E rx_empty_E)
qed

lemma fmt_IMp_E:
  assumes "pattern ''%I:%M %p'' = Some p" and "(g, r) \<in> set (p s)"
  shows "\<exists>a b ws c1 c2. g = [(CHR ''I'', a), (CHR ''M'', b), (CHR ''p'', [c1, c2])]
           \<and> s = a @ CHR '':'' # b @ ws @ c1 # c2 # r \<and> digits a \<and> digits b
           \<and> (lower c1 = CHR ''a'' \<or> lower c1 = CHR ''p'') \<and> lower c2 = CHR ''m''"
proof -
  obtain pI pM pP where d: "directive CHR ''I'' = Some pI" "directive CHR ''M'' = Some pM"
    "directive CHR ''p'' = Some pP"
    by simp
  have p: "p = rx_then pI (rx_then (rx_lit CHR '':'') (rx_then pM
               (rx_then rx_spaces (rx_then pP rx_empty))))"
    using assms(1) d by (simp add: is_space_def)
  from assms(2) [unfolded p] obtain g1 g2 g3 g4 g5 g6 r1 r2 r3 r4 r5 where
    "(g1, r1) \<in> set (pI s)" "(g2, r2) \<in> set (rx_lit CHR '':'' r1)"
    "(g3, r3) \<in> set (pM r2)" "(g4, r4) \<in> set (rx_spaces r3)"
    "(g5, r5) \<in> set (pP r4)" "(g6, r) \<in> set (rx_empty r5)"
    "g = g1 @ g2 @ g3 @ g4 @ g5 @ g6"
    by (fastforce dest!: rx_then_E)
  moreover from this obtain a b where "g1 = [(CHR ''I'', a)]" "s = a @ r1" "digits a"
    "g3 = [(CHR ''M'', b)]" "r2 = b @ r3" "digits b"
    using digit_group_E [OF _ d(1)] digit_group_E [OF _ d(2)]
    unfolding digits_def
    by (metis list.set_intros(1,2))
  moreover from calculation obtain c1 c2 where "g5 = [(CHR ''p'', [c1, c2])]" "r4 = c1 # c2 # r5"
    "lower c1 = CHR ''a'' \<or> lower c1 = CHR ''p''" "lower c2 = CHR ''m''"
    using p_group_E [OF d(3)] by blast
  moreover from calculation obtain ws where "r3 = ws @ r4" "g4 = []"
    using rx_spaces_E by blast
  ultimately show ?thesis
    by (auto dest!: rx_lit_E rx_empty_E)
qed

lemma fmt_IMSp_E:
  assumes "pattern ''%I:%M:%S %p'' = Some p" and "(g, r) \<in> set (p s)"
  shows "\<exists>a b c ws c1 c2.
           g = [(CHR ''I'', a), (CHR ''M'', b), (CHR ''S'', c), (CHR ''p'', [c1, c2])]
           \<and> s = a @ CHR '':'' # b @ CHR '':'' # c @ ws @ c1 # c2 # r
           \<and> digits a \<and> digits b \<and> digits c
           \<and> (lower c1 = CHR ''a'' \<or> lower c1 = CHR ''p'') \<and> lower c2 = CHR ''m''"
proof -
  obtain pI pM pS pP where d: "directive CHR ''I'' = Some pI" "directive CHR ''M'' = Some pM"
    "directive CHR ''S'' = Some pS" "directive CHR ''p'' = Some pP"
    by simp
  have p: "p = rx_then pI (rx_then (rx_lit CHR '':'') (rx_then pM
               (rx_then (rx_lit CHR '':'') (rx_then pS
                 (rx_then rx_spaces (rx_then pP rx_empty))))))"
    using assms(1) d by (simp add: is_space_def)
  from assms(2) [unfolded p] obtain g1 g2 g3 g4 g5 g6 g7 g8 r1 r2 r3 r4 r5 r6 r7 where
    "(g1, r1) \<in> set (pI s)" "(g2, r2) \<in> set (rx_lit CHR '':'' r1)"
    "(g3, r3) \<in> set (pM r2)" "(g4, r4) \<in> set (rx_lit CHR '':'' r3)"
    "(g5, r5) \<in> set (pS r4)" "(g6, r6) \<in> set (rx_spaces r5)"
    "(g7, r7) \<in> set (pP r6)" "(g8, r) \<in> set (rx_empty r7)"
    "g = g1 @ g2 @ g3 @ g4 @ g5 @ g6 @ g7 @ g8"
    by (fastforce dest!: rx_then_E)
  moreover from this obtain a b c where "g1 = [(CHR ''I'', a)]" "s = a @ r1" "digits a"
    "g3 = [(CHR ''M'', b)]" "r2 = b @ r3" "digits b"
    "g5 = [(CHR ''S'', c)]" "r4 = c @ r5" "digits c"
    using digit_group_E [OF _ d(1)] digit_group_E [OF _ d(2)] digit_group_E [OF _ d(3)]
    unfolding digits_def
    by (metis list.set_intros(1,2))
  moreover from calculation obtain c1 c2 where "g7 = [(CHR ''p'', [c1, c2])]" "r6 = c1 # c2 # r7"
    "lower c1 = CHR ''a'' \<or> lower c1 = CHR ''p''" "lower c2 = CHR ''m''"
    using p_group_E [OF d(4)] by blast
  moreover from calculation obtain ws where "r5 = ws @ r6" "g6 = []"
    using rx_spaces_E by blast
  ultimately show ?thesis
    by (auto dest!: rx_lit_E rx_empty_E)
qed


lemma try_formats_Some:
  "try_formats s fs = Some d \<Longrightarrow> \<exists>f \<in> set fs. strptime s f = Inr d"
proof (induction fs)
  case Nil
  then show ?case by simp
next
  case (Cons f fs)
  then show ?case by (cases "strptime s f") (auto split: error.splits)
qed

lemma strptime_time_only:
  assumes "f \<in> set formats" and "strptime s f = Inr d"
  shows "date d = \<lparr>year = 1900, month = 1, day = 1\<rparr>"
    and "hour (time d) \<le> 23" and "minute (time d) \<le> 59" and "second (time d) \<le> 59"
proof -
  from assms(2) obtain p g ms where
    p: "pattern f = Some p" and m: "p s = (g, []) # ms" and mk: "make_datetime g = Inr d"
    by (rule strptime_E)
  from m have mem: "(g, []) \<in> set (p s)" by simp
  have "map_of g CHR ''Y'' = None \<and> map_of g CHR ''m'' = None \<and> map_of g CHR ''d'' = None"
    using assms(1) p mem
    by (auto simp: formats_def dest!: fmt_IMp_E fmt_IMSp_E fmt_HMS_E fmt_HM_E)
  then show "date d = \<lparr>year = 1900, month = 1, day = 1\<rparr>"
    using make_datetime_E(1) [OF mk] by (simp add: group_or_def)
  show "hour (time d) \<le> 23" "minute (time d) \<le> 59" "second (time d) \<le> 59"
    using make_datetime_E(2-4) [OF mk] by simp_all
qed

lemma parse_time_obj_Some:
  assumes "parse_time_obj x = Some d"
  shows "date d = \<lparr>year = 1900, month = 1, day = 1\<rparr>" and "valid_time (time d)"
  using try_formats_Some [OF assms [unfolded parse_time_obj_def]] strptime_time_only
  by (auto simp: valid_time_def)

lemma time_lt_seconds:
  "valid_time a \<Longrightarrow> valid_time b \<Longrightarrow> time_lt a b \<longleftrightarrow> seconds_of a < seconds_of b"
  by (auto simp: valid_time_def time_lt_def seconds_of_def)

lemma total_seconds_same_date:
  "date a = date b \<Longrightarrow> total_seconds a b = seconds_of (time a) - seconds_of (time b)"
  by (simp add: total_seconds_def)

lemma round2_negative:
  assumes "x \<le> - 1 / 60"
  shows "round2 x < 0"
proof -
  have "x * 100 < -1" using assms by linarith
  then have "\<lfloor>x * 100\<rfloor> < -1" by (simp add: floor_less_iff)
  then have "round_half_even (x * 100) < 0"
    using round_half_even_bounds [of "x * 100"] by linarith
  then show ?thesis by (simp add: round2_def divide_less_0_iff)
qed

subsection \<open>The two time parsers agree\<close>

lemma contains_append: "contains sub (pre @ sub @ r)"
proof (induction pre)
  case Nil
  have t: "take (length sub) (sub @ r) = sub" by simp
  show ?case
  proof (cases "sub @ r")
    case Nil
    then show ?thesis by simp
  next
    case (Cons a l)
    have "contains sub (a # l)"
      unfolding contains.simps using t Cons by simp
    then show ?thesis using Cons by simp
  qed
next
  case (Cons c pre)
  then show ?case by simp
qed

lemma contains_set: "contains sub s \<Longrightarrow> set sub \<subseteq> set s"
proof (induction s)
  case Nil
  then show ?case by simp
next
  case (Cons c s)
  from Cons.prems have "take (length sub) (c # s) = sub \<or> contains sub s" by simp
  then show ?case
  proof
    assume "take (length sub) (c # s) = sub"
    then have "set sub = set (take (length sub) (c # s))" by simp
    then show ?thesis using set_take_subset by fast
  next
    assume "contains sub s"
    then show ?thesis using Cons.IH by auto
  qed
qed

lemma lower_cases:
  assumes "lower c = d"
  shows "c = d \<or> (c, d) \<in> set (zip ''ABCDEFGHIJKLMNOPQRSTUVWXYZ'' ''abcdefghijklmnopqrstuvwxyz'')"
proof (cases "map_of (zip ''ABCDEFGHIJKLMNOPQRSTUVWXYZ'' ''abcdefghijklmnopqrstuvwxyz'') c")
  case None
  then show ?thesis using assms unfolding lower_def by simp
next
  case (Some e)
  then have "e = d" using assms unfolding lower_def by simp
  with Some show ?thesis by (blast dest: map_of_SomeD)
qed

lemma upper_of_lower:
  "lower c = CHR ''a'' \<Longrightarrow> upper c = CHR ''A''"
  "lower c = CHR ''p'' \<Longrightarrow> upper c = CHR ''P''"
  "lower c = CHR ''m'' \<Longrightarrow> upper c = CHR ''M''"
proof -
  have A: "upper CHR ''a'' = CHR ''A''" "upper CHR ''A'' = CHR ''A''"
    and P: "upper CHR ''p'' = CHR ''P''" "upper CHR ''P'' = CHR ''P''"
    and M: "upper CHR ''m'' = CHR ''M''" "upper CHR ''M'' = CHR ''M''"
    by (simp_all add: upper_def)
  show "lower c = CHR ''a'' \<Longrightarrow> upper c = CHR ''A''"
    using lower_cases [of c "CHR ''a''"] A by auto
  show "lower c = CHR ''p'' \<Longrightarrow> upper c = CHR ''P''"
    using lower_cases [of c "CHR ''p''"] P by auto
  show "lower c = CHR ''m'' \<Longrightarrow> upper c = CHR ''M''"
    using lower_cases [of c "CHR ''m''"] M by auto
qed

lemma upper_digit:
  assumes "is_digit c \<or> c = CHR '':''"
  shows "upper c = c"
proof -
  have "\<forall>d \<in> set ''0123456789:''. upper d = d"
    by (simp add: upper_def)
  moreover have "c \<in> set ''0123456789:''"
    using assms by (auto simp: is_digit_def)
  ultimately show ?thesis by blast
qed

lemma image_memE:
  assumes "y \<in> f ` A"
  obtains c where "c \<in> A" and "f c = y"
  using assms by blast

lemma digits_colon_no_ampm:
  assumes "\<forall>c \<in> set x. is_digit c \<or> c = CHR '':''"
  shows "\<not> has_ampm x"
proof
  assume "has_ampm x"
  then have "contains ''AM'' (map upper x) \<or> contains ''PM'' (map upper x)"
    by (simp add: has_ampm_def)
  then have "set ''AM'' \<subseteq> set (map upper x) \<or> set ''PM'' \<subseteq> set (map upper x)"
    using contains_set by blast
  then have "CHR ''M'' \<in> upper ` set x"
    by (elim disjE) simp_all
  then obtain c where c: "c \<in> set x" "upper c = CHR ''M''"
    by (rule image_memE)
  from assms c(1) have dc: "is_digit c \<or> c = CHR '':''"
    by (rule bspec)
  then have "upper c = c"
    by (rule upper_digit)
  then have "c = CHR ''M''"
    using c(2) by simp
  then show False
    using dc by (simp add: is_digit_def)
qed

lemma digits_set: "digits a \<Longrightarrow> c \<in> set a \<Longrightarrow> is_digit c"
  by (simp add: digits_def list_all_iff)

lemma digits_count:
  assumes "digits a"
  shows "count_list a CHR '':'' = 0"
proof -
  have "CHR '':'' \<notin> set a"
  proof
    assume "CHR '':'' \<in> set a"
    with assms have "is_digit CHR '':''" by (rule digits_set)
    then show False by (simp add: is_digit_def)
  qed
  then show ?thesis by (simp add: count_list_0_iff)
qed

lemma strptime_HM_shape:
  assumes "strptime x ''%H:%M'' = Inr d"
  shows "\<not> has_ampm x" and "count_list x CHR '':'' = 1"
proof -
  from assms obtain p g ms where "pattern ''%H:%M'' = Some p" "p x = (g, []) # ms"
    by (rule strptime_E)
  then obtain a b where x: "x = a @ CHR '':'' # b" and d: "digits a" "digits b"
    using fmt_HM_E [of p g "[]" x] by auto
  show "count_list x CHR '':'' = 1"
    using digits_count d by (simp add: x)
  show "\<not> has_ampm x"
    using digits_set d by (intro digits_colon_no_ampm) (auto simp: x)
qed

lemma strptime_HMS_shape:
  assumes "strptime x ''%H:%M:%S'' = Inr d"
  shows "\<not> has_ampm x" and "count_list x CHR '':'' = 2"
proof -
  from assms obtain p g ms where "pattern ''%H:%M:%S'' = Some p" "p x = (g, []) # ms"
    by (rule strptime_E)
  then obtain a b c where x: "x = a @ CHR '':'' # b @ CHR '':'' # c"
    and d: "digits a" "digits b" "digits c"
    using fmt_HMS_E [of p g "[]" x] by auto
  show "count_list x CHR '':'' = 2"
    using digits_count d by (simp add: x)
  show "\<not> has_ampm x"
    using digits_set d by (intro digits_colon_no_ampm) (auto simp: x)
qed

lemma ampm_suffix:
  assumes "lower c1 = CHR ''a'' \<or> lower c1 = CHR ''p''" and "lower c2 = CHR ''m''"
  shows "has_ampm (pre @ [c1, c2])"
proof -
  have "map upper (pre @ [c1, c2]) = map upper pre @ [upper c1, CHR ''M''] @ []"
    using assms(2) by (simp add: upper_of_lower)
  moreover have "upper c1 = CHR ''A'' \<or> upper c1 = CHR ''P''"
    using assms(1) upper_of_lower by blast
  ultimately show ?thesis
    unfolding has_ampm_def using contains_append [of _ "map upper pre" "[]"] by metis
qed

lemma strptime_IMp_shape:
  assumes "strptime x ''%I:%M %p'' = Inr d"
  shows "has_ampm x"
proof -
  from assms obtain p g ms where "pattern ''%I:%M %p'' = Some p" "p x = (g, []) # ms"
    by (rule strptime_E)
  then obtain a b ws c1 c2 where "x = (a @ CHR '':'' # b @ ws) @ [c1, c2]"
    "lower c1 = CHR ''a'' \<or> lower c1 = CHR ''p''" "lower c2 = CHR ''m''"
    using fmt_IMp_E [of p g "[]" x] by auto
  then show ?thesis using ampm_suffix by metis
qed

lemma strptime_IMSp_shape:
  assumes "strptime x ''%I:%M:%S %p'' = Inr d"
  shows "has_ampm x"
proof -
  from assms obtain p g ms where "pattern ''%I:%M:%S %p'' = Some p" "p x = (g, []) # ms"
    by (rule strptime_E)
  then obtain a b c ws c1 c2 where "x = (a @ CHR '':'' # b @ CHR '':'' # c @ ws) @ [c1, c2]"
    "lower c1 = CHR ''a'' \<or> lower c1 = CHR ''p''" "lower c2 = CHR ''m''"
    using fmt_IMSp_E [of p g "[]" x] by auto
  then show ?thesis using ampm_suffix by metis
qed

lemma strptime_cases: "strptime x f = Inl ValueError \<or> (\<exists>d. strptime x f = Inr d)"
  by (cases "strptime x f") (auto intro: error.exhaust)

lemma wh_time_obj_try_formats:
  "(case wh_time_obj t of Inl e \<Rightarrow> None | Inr d \<Rightarrow> Some d) = try_formats (strip (str t)) formats"
proof -
  let ?x = "strip (str t)"
  show ?thesis
  proof (cases "has_ampm ?x")
    case True
    then have "strptime ?x ''%H:%M:%S'' = Inl ValueError" "strptime ?x ''%H:%M'' = Inl ValueError"
      using strptime_HMS_shape(1) strptime_HM_shape(1) strptime_cases by blast+
    then show ?thesis
      using True strptime_cases [of ?x "''%I:%M %p''"] strptime_cases [of ?x "''%I:%M:%S %p''"]
      by (auto simp: wh_time_obj_def formats_def Let_def has_ampm_def)
  next
    case False
    then have 12: "strptime ?x ''%I:%M %p'' = Inl ValueError"
      "strptime ?x ''%I:%M:%S %p'' = Inl ValueError"
      using strptime_IMp_shape strptime_IMSp_shape strptime_cases by blast+
    show ?thesis
    proof (cases "count_list ?x CHR '':'' = 2")
      case True
      then have "strptime ?x ''%H:%M'' = Inl ValueError"
        using strptime_HM_shape(2) [of ?x] strptime_cases [of ?x "''%H:%M''"] by auto
      then show ?thesis
        using False True 12 strptime_cases [of ?x "''%H:%M:%S''"]
        by (auto simp: wh_time_obj_def formats_def Let_def has_ampm_def)
    next
      case c: False
      then have "strptime ?x ''%H:%M:%S'' = Inl ValueError"
        using strptime_HMS_shape(2) [of ?x] strptime_cases [of ?x "''%H:%M:%S''"] by auto
      then show ?thesis
        using False c 12 strptime_cases [of ?x "''%H:%M''"]
        by (auto simp: wh_time_obj_def formats_def Let_def has_ampm_def)
    qed
  qed
qed

subsection \<open>\<open>calculate_working_hours\<close> in terms of the time parser\<close>

lemma parse_time_simple_wh:
  "parse_time_simple t = (case wh_time_obj t of Inl e \<Rightarrow> None | Inr d \<Rightarrow> Some (time d))"
proof -
  have "parse_time_simple t
      = map_option time (case wh_time_obj t of Inl e \<Rightarrow> None | Inr d \<Rightarrow> Some d)"
    by (simp add: parse_time_simple_def wh_time_obj_try_formats)
  then show ?thesis by (cases "wh_time_obj t") simp_all
qed

lemma parse_time_simple_valid:
  assumes "parse_time_simple t = Some tm"
  shows "valid_time tm"
proof -
  from assms obtain d where "try_formats (strip (str t)) formats = Some d" and "tm = time d"
    by (auto simp: parse_time_simple_def)
  then show ?thesis
    using try_formats_Some strptime_time_only(2-4) unfolding valid_time_def by metis
qed

lemma wh_parse_time_Inr:
  assumes "parse_time_simple t = Some tm" and "strptime date_str ''%Y-%m-%d'' = Inr dobj"
  shows "wh_parse_time t date_str = Inr (combine (date dobj) tm)"
  using assms by (cases "wh_time_obj t") (simp_all add: parse_time_simple_wh wh_parse_time_def)

lemma wh_parse_time_Inl:
  "isl (wh_parse_time t date_str)
     \<longleftrightarrow> parse_time_simple t = None \<or> isl (strptime date_str ''%Y-%m-%d'')"
  by (cases "wh_time_obj t"; cases "strptime date_str ''%Y-%m-%d''")
     (simp_all add: parse_time_simple_wh wh_parse_time_def)

lemma calculate_working_hours_None:
  "calculate_working_hours up punch_in punch_out date_str = None
     \<longleftrightarrow> falsy punch_in \<or> falsy punch_out
        \<or> parse_time_simple punch_in = None \<or> parse_time_simple punch_out = None
        \<or> isl (strptime date_str ''%Y-%m-%d'')"
proof -
  have "calculate_working_hours up punch_in punch_out date_str = None
     \<longleftrightarrow> falsy punch_in \<or> falsy punch_out
        \<or> isl (wh_parse_time punch_in date_str) \<or> isl (wh_parse_time punch_out date_str)"
    by (cases "wh_parse_time punch_in date_str"; cases "wh_parse_time punch_out date_str")
       (simp_all add: calculate_working_hours_def Let_def)
  then show ?thesis
    unfolding wh_parse_time_Inl by blast
qed

lemma calculate_working_hours_Some:
  assumes "parse_time_simple punch_in = Some tin" and "parse_time_simple punch_out = Some tout"
    and "strptime date_str ''%Y-%m-%d'' = Inr dobj"
  shows "calculate_working_hours up punch_in punch_out date_str
      = Some (max 0 (round2_ties up (of_int (seconds_of tout - seconds_of tin) / 3600)))"
proof -
  have nf: "\<not> falsy punch_in" "\<not> falsy punch_out"
    using assms(1,2) parse_time_simple_falsy by fastforce+
  have "total_seconds (combine (date dobj) tout) (combine (date dobj) tin)
      = seconds_of tout - seconds_of tin"
    by (simp add: total_seconds_def combine_def)
  then show ?thesis
    using nf
    by (simp add: calculate_working_hours_def wh_parse_time_Inr [OF assms(1,3)]
        wh_parse_time_Inr [OF assms(2,3)] Let_def)
qed

lemma round_ties_bounds:
  "\<lfloor>y\<rfloor> \<le> round_ties up y \<and> round_ties up y \<le> \<lfloor>y\<rfloor> + 1"
  by (simp add: round_ties_def Let_def)

lemma round_ties_close: "\<bar>of_int (round_ties up y) - y\<bar> \<le> 1 / 2"
proof -
  have f: "of_int \<lfloor>y\<rfloor> \<le> y" "y < of_int \<lfloor>y\<rfloor> + 1" by linarith+
  show ?thesis
    using f by (auto simp: round_ties_def Let_def abs_le_iff)
qed

lemma round2_ties_close: "\<bar>round2_ties up x - x\<bar> \<le> 1 / 200"
proof -
  let ?y = "x * 100"
  have "\<bar>(of_int (round_ties up ?y) - ?y) / 100\<bar> \<le> (1 / 2) / 100"
    using round_ties_close [of up ?y] by (simp only: abs_divide) simp
  then show ?thesis by (simp add: round2_ties_def diff_divide_distrib)
qed

lemma round_ties_nonpos:
  assumes "x \<le> 0"
  shows "round_ties up x \<le> 0"
proof -
  have f0: "\<lfloor>x\<rfloor> \<le> 0" using assms by (simp add: floor_le_iff)
  have f1: "\<lfloor>x\<rfloor> + 1 \<le> 0" if "1 / 2 \<le> x - of_int \<lfloor>x\<rfloor>"
  proof -
    from that assms have "(of_int \<lfloor>x\<rfloor> :: rat) < 0" by linarith
    then have "\<lfloor>x\<rfloor> < 0" by simp
    then show ?thesis by linarith
  qed
  show ?thesis
    using f0 f1 by (auto simp: round_ties_def Let_def)
qed

lemma round2_ties_nonpos: "x \<le> 0 \<Longrightarrow> round2_ties up x \<le> 0"
  using round_ties_nonpos [of "x * 100" up]
  by (simp add: round2_ties_def mult_le_0_iff divide_le_0_iff)

lemma round2_ties_nonneg:
  assumes "0 \<le> x"
  shows "0 \<le> round2_ties up x"
proof -
  have "0 \<le> \<lfloor>x * 100\<rfloor>" using assms by simp
  then have "0 \<le> round_ties up (x * 100)"
    using round_ties_bounds [of "x * 100" up] by linarith
  then show ?thesis by (simp add: round2_ties_def)
qed

lemma max0_round2_ties:
  "\<exists>k. max 0 (round2_ties up x) = of_int k / 100"
proof -
  have "max 0 (round2_ties up x) = of_int (max 0 (round_ties up (x * 100))) / 100"
    by (simp add: round2_ties_def max_def divide_le_0_iff zero_le_divide_iff)
  then show ?thesis ..
qed

lemma max0_round2_ties_close:
  "\<bar>max 0 (round2_ties up x) - max 0 x\<bar> \<le> 1 / 200"
proof (cases "0 \<le> x")
  case True
  then have "max 0 (round2_ties up x) = round2_ties up x" "max 0 x = x"
    using round2_ties_nonneg [of x up] by simp_all
  then show ?thesis using round2_ties_close [of up x] by simp
next
  case False
  then have "max 0 (round2_ties up x) = 0" "max 0 x = 0"
    using round2_ties_nonpos [of x up] by simp_all
  then show ?thesis by simp
qed

subsection \<open>The time parser on the formats of the specification\<close>

text \<open>
  C6. The time parser of \<open>calculate_status\<close> reads \<open>09:15\<close>, \<open>09:15:00\<close>, \<open>9:15 AM\<close> and
  \<open>09:15:00 AM\<close> as the time 09:15:00, and returns \<open>None\<close>, raising nothing, on
  \<open>not a time\<close>.
\<close>

theorem parse_time_simple_formats:
  "parse_time_simple (Some ''09:15'') = Some \<lparr>hour = 9, minute = 15, second = 0\<rparr>
   \<and> parse_time_simple (Some ''09:15:00'') = Some \<lparr>hour = 9, minute = 15, second = 0\<rparr>
   \<and> parse_time_simple (Some ''9:15 AM'') = Some \<lparr>hour = 9, minute = 15, second = 0\<rparr>
   \<and> parse_time_simple (Some ''09:15:00 AM'') = Some \<lparr>hour = 9, minute = 15, second = 0\<rparr>
   \<and> parse_time_simple (Some ''not a time'') = None"
  by (simp add: parse_defs strptime_defs rx_defs)

subsection \<open>\<open>format_hours\<close>\<close>

text \<open>
  C9. \<open>format_hours\<close> of \<open>None\<close> is the empty string: neither \<open>0h 0m\<close> nor an error.
\<close>

theorem format_hours_None:
  "format_hours None = [] \<and> format_hours None \<noteq> ''0h 0m''"
  by (simp add: format_hours_def)

subsection \<open>Precedence of the status labels\<close>

text \<open>
  On a policy on which the call returns (its \<open>max_break_duration\<close> is a number and its
  \<open>half_day_time\<close> parses): when a half-day condition holds (working hours below 5, or a
  punch-out that parses to a time before \<open>half_day_time\<close>, or a punch-in after it) and the
  punch-in parses to a time after the start threshold, the result has status \<open>Half Day\<close>
  and \<open>is_late\<close> true. The lateness step changes the status only from \<open>Present\<close>, and
  only to \<open>Late\<close>.
\<close>

lemma half_day_and_late:
  assumes "max_break_of s = Inr mb" and "half_day_threshold_of s = Inr thr"
    and "parse_time_simple punch_in = Some tin"
    and "time_lt (start_threshold_of s) tin"
    and "(\<exists>w. working_hours = Some w \<and> w < 5)
         \<or> (\<exists>tout. parse_time_simple punch_out = Some tout \<and> time_lt tout thr)
         \<or> time_lt thr tin"
  shows "(\<exists>r. calculate_status punch_in punch_out working_hours date_str s break_start break_end = Inr r
            \<and> status r = ''Half Day'' \<and> is_late r)
         \<and> (\<forall>t r. status (late_rule s t r) \<noteq> status r \<longrightarrow>
               status r = ''Present'' \<and> status (late_rule s t r) = ''Late'')"
proof -
  have present: "\<not> falsy punch_in"
    using assms(3) parse_time_simple_falsy by fastforce
  have half: "is_half_day_of working_hours (parse_time_simple punch_in) (parse_time_simple punch_out) thr"
    using assms(3,5) by (auto simp: is_half_day_of_def HALF_DAY_HOURS_def)
  have "status (half_day_rule working_hours (parse_time_simple punch_in) (parse_time_simple punch_out) thr r0) = ''Half Day''" for r0
    using half by (simp add: half_day_rule_def)
  then have 1: "\<exists>r. calculate_status punch_in punch_out working_hours date_str s break_start break_end = Inr r
            \<and> status r = ''Half Day'' \<and> is_late r"
    using assms(3,4) by (simp add: calculate_status_present [OF present assms(1,2)] late_rule_def Let_def)
  have 2: "\<forall>t r. status (late_rule s t r) \<noteq> status r \<longrightarrow>
               status r = ''Present'' \<and> status (late_rule s t r) = ''Late''"
    by (auto simp: late_rule_def Let_def split: option.splits if_splits)
  from 1 2 show ?thesis by blast
qed

lemma half_day_and_late_example:
  "max_break_of Map.empty = Inr (Finite 60)
   \<and> half_day_threshold_of Map.empty = Inr \<lparr>hour = 14, minute = 0, second = 0\<rparr>
   \<and> parse_time_simple (Some ''10:00'') = Some \<lparr>hour = 10, minute = 0, second = 0\<rparr>
   \<and> time_lt (start_threshold_of Map.empty) \<lparr>hour = 10, minute = 0, second = 0\<rparr>
   \<and> parse_time_simple (Some ''13:30'') = Some \<lparr>hour = 13, minute = 30, second = 0\<rparr>
   \<and> time_lt \<lparr>hour = 13, minute = 30, second = 0\<rparr> \<lparr>hour = 14, minute = 0, second = 0\<rparr>
   \<and> (\<exists>r. calculate_status (Some ''10:00'') (Some ''13:30'') (Some (7 / 2)) ''2024-01-10''
              Map.empty None None = Inr r
            \<and> status r = ''Half Day'' \<and> is_late r)"
proof -
  have h1: "max_break_of Map.empty = Inr (Finite 60)"
    by (simp add: max_break_of_def)
  have h2: "half_day_threshold_of Map.empty = Inr \<lparr>hour = 14, minute = 0, second = 0\<rparr>"
    by (simp add: half_day_threshold_of_def get_def strptime_defs rx_defs)
  have h3: "parse_time_simple (Some ''10:00'') = Some \<lparr>hour = 10, minute = 0, second = 0\<rparr>"
    by (simp add: parse_defs strptime_defs rx_defs)
  have h4: "time_lt (start_threshold_of Map.empty) \<lparr>hour = 10, minute = 0, second = 0\<rparr>"
    by (simp add: start_threshold_of_def get_def strptime_defs rx_defs time_lt_def)
  have h5: "parse_time_simple (Some ''13:30'') = Some \<lparr>hour = 13, minute = 30, second = 0\<rparr>"
    by (simp add: parse_defs strptime_defs rx_defs)
  have h6: "time_lt \<lparr>hour = 13, minute = 30, second = 0\<rparr> \<lparr>hour = 14, minute = 0, second = 0\<rparr>"
    by (simp add: time_lt_def)
  have h7: "(\<exists>w. Some (7 / 2 :: rat) = Some w \<and> w < 5)
         \<or> (\<exists>tout. parse_time_simple (Some ''13:30'') = Some tout
               \<and> time_lt tout \<lparr>hour = 14, minute = 0, second = 0\<rparr>)
         \<or> time_lt \<lparr>hour = 14, minute = 0, second = 0\<rparr> \<lparr>hour = 10, minute = 0, second = 0\<rparr>"
    using h5 h6 by blast
  from half_day_and_late [OF h1 h2 h3 h4 h7] h1 h2 h3 h4 h5 h6
  show ?thesis by blast
qed

text \<open>
  C3. The claim is made for every input on which a half-day condition and the lateness
  condition hold. With working hours 3.5 and punch-in 10:00 under a policy whose
  \<open>standard_start_time\<close> is 09:30, both hold; when the same policy has the
  \<open>half_day_time\<close> \<open>garbage\<close>, line 86 raises \<open>ValueError\<close> and no record is returned,
  neither \<open>Half Day\<close> nor \<open>is_late\<close>. This is the unguarded parse of C1.
\<close>

theorem half_day_and_late_corrupt_policy_raises:
  "(7 / 2 :: rat) < HALF_DAY_HOURS
   \<and> parse_time_simple (Some ''10:00'') = Some \<lparr>hour = 10, minute = 0, second = 0\<rparr>
   \<and> strptime ''09:30'' ''%H:%M''
       = Inr \<lparr>date = \<lparr>year = 1900, month = 1, day = 1\<rparr>,
              time = \<lparr>hour = 9, minute = 30, second = 0\<rparr>\<rparr>
   \<and> time_lt \<lparr>hour = 9, minute = 30, second = 0\<rparr> \<lparr>hour = 10, minute = 0, second = 0\<rparr>
   \<and> calculate_status (Some ''10:00'') (Some ''18:00'') (Some (7 / 2)) ''2024-01-10''
         [''standard_start_time'' \<mapsto> ''09:30'', ''half_day_time'' \<mapsto> ''garbage'']
         None None
       = Inl ValueError"
proof -
  have 1: "(7 / 2 :: rat) < HALF_DAY_HOURS"
    by (simp add: HALF_DAY_HOURS_def)
  have 2: "parse_time_simple (Some ''10:00'') = Some \<lparr>hour = 10, minute = 0, second = 0\<rparr>"
    by (simp add: parse_defs strptime_defs rx_defs)
  have 3: "strptime ''09:30'' ''%H:%M''
       = Inr \<lparr>date = \<lparr>year = 1900, month = 1, day = 1\<rparr>,
              time = \<lparr>hour = 9, minute = 30, second = 0\<rparr>\<rparr>"
    by (simp add: strptime_defs rx_defs)
  have 4: "time_lt \<lparr>hour = 9, minute = 30, second = 0\<rparr> \<lparr>hour = 10, minute = 0, second = 0\<rparr>"
    by (simp add: time_lt_def)
  have 5: "calculate_status (Some ''10:00'') (Some ''18:00'') (Some (7 / 2)) ''2024-01-10''
         [''standard_start_time'' \<mapsto> ''09:30'', ''half_day_time'' \<mapsto> ''garbage'']
         None None
       = Inl ValueError"
    by (simp add: calculate_status_def max_break_of_def half_day_threshold_of_def get_def
        strptime_defs rx_defs falsy_def Let_def)
  from 1 2 3 4 5 show ?thesis by (intro conjI)
qed

subsection \<open>Policy values that do not parse\<close>

text \<open>
  C1. \<open>calculate_status\<close> is claimed never to raise, whatever the settings hold. Line 86
  parses \<open>half_day_time\<close> outside every \<open>try\<close>: with the value \<open>garbage\<close> the call raises
  \<open>ValueError\<close>. The same value under \<open>standard_start_time\<close> falls back to 09:30 (lines
  123 to 126) and the call returns.
\<close>

theorem corrupt_half_day_time_raises:
  "calculate_status (Some ''09:00'') (Some ''18:00'') None ''2024-01-10''
     [''half_day_time'' \<mapsto> ''garbage''] None None = Inl ValueError
   \<and> (\<exists>r. calculate_status (Some ''09:00'') (Some ''18:00'') None ''2024-01-10''
     [''standard_start_time'' \<mapsto> ''garbage''] None None = Inr r)"
  by (simp add: calculate_status_def max_break_of_def half_day_threshold_of_def get_def
      strptime_defs rx_defs falsy_def Let_def)

text \<open>
  C2. With \<open>punch_in\<close> absent the result is claimed to be the \<open>Absent\<close> record whatever
  the policy settings are. Line 51 converts \<open>max_break_duration\<close> before line 65 looks
  at \<open>punch_in\<close>: with the value \<open>abc\<close> the call raises \<open>ValueError\<close> and returns no
  record. (Lemma \<open>calculate_status_absent\<close>: whenever the conversion succeeds, the
  result is the \<open>Absent\<close> record.)
\<close>

theorem absent_punch_in_corrupt_max_break_raises:
  "calculate_status None None None ''2024-01-10''
     [''max_break_duration'' \<mapsto> ''abc''] None None = Inl ValueError"
  by (simp add: calculate_status_def max_break_of_def float_defs)

subsection \<open>Presence does not depend on parsing\<close>

text \<open>
  On a policy on which the call returns: a \<open>punch_in\<close> that is not empty and does not
  parse, together with a \<open>punch_out\<close> that does not parse, no working hours and no break
  fields, gives status \<open>Present\<close> when \<open>punch_out\<close> is not empty and \<open>Incomplete\<close> when it
  is absent; the four flags are false and the break duration is 0.
\<close>

lemma presence_without_parsing:
  assumes "max_break_of s = Inr mb" and "half_day_threshold_of s = Inr thr"
    and "\<not> falsy punch_in" and "parse_time_simple punch_in = None"
    and "falsy punch_out \<or> parse_time_simple punch_out = None"
  shows "calculate_status punch_in punch_out None date_str s None None
    = Inr \<lparr>status = (if falsy punch_out then ''Incomplete'' else ''Present''),
           is_late = False, break_duration = 0, break_exceeded = False,
           is_break_outside_window = False, is_early_departure = False\<rparr>"
proof -
  have out: "parse_time_simple punch_out = None"
    using assms(5) parse_time_simple_falsy by blast
  show ?thesis
    by (simp add: calculate_status_present [OF assms(3,1,2)] assms(4) out
        half_day_rule_def is_half_day_of_def late_rule_def early_rule_def break_rule_def
        falsy_def initial_result_def)
qed

lemma presence_without_parsing_example:
  "max_break_of Map.empty = Inr (Finite 60)
   \<and> half_day_threshold_of Map.empty = Inr \<lparr>hour = 14, minute = 0, second = 0\<rparr>
   \<and> \<not> falsy (Some ''garbage'') \<and> parse_time_simple (Some ''garbage'') = None
   \<and> calculate_status (Some ''garbage'') (Some ''garbage'') None ''2024-01-10'' Map.empty None None
      = Inr \<lparr>status = ''Present'', is_late = False, break_duration = 0, break_exceeded = False,
           is_break_outside_window = False, is_early_departure = False\<rparr>
   \<and> calculate_status (Some ''garbage'') None None ''2024-01-10'' Map.empty None None
      = Inr \<lparr>status = ''Incomplete'', is_late = False, break_duration = 0, break_exceeded = False,
           is_break_outside_window = False, is_early_departure = False\<rparr>"
proof -
  have h1: "max_break_of Map.empty = Inr (Finite 60)"
    by (simp add: max_break_of_def)
  have h2: "half_day_threshold_of Map.empty = Inr \<lparr>hour = 14, minute = 0, second = 0\<rparr>"
    by (simp add: half_day_threshold_of_def get_def strptime_defs rx_defs)
  have h3: "\<not> falsy (Some ''garbage'')"
    by (simp add: falsy_def)
  have h4: "parse_time_simple (Some ''garbage'') = None"
    by (simp add: parse_defs strptime_defs rx_defs)
  have h5: "falsy (Some ''garbage'') \<or> parse_time_simple (Some ''garbage'') = None"
    using h4 by simp
  have h6: "falsy None \<or> parse_time_simple None = None"
    by (simp add: falsy_def)
  from presence_without_parsing [OF h1 h2 h3 h4 h5, of "''2024-01-10''"]
    presence_without_parsing [OF h1 h2 h3 h4 h6, of "''2024-01-10''"] h1 h2 h3 h4
  show ?thesis by (simp add: falsy_def)
qed

text \<open>
  C8. The claim is made for every \<open>punch_in\<close> and \<open>punch_out\<close> that are not empty and do
  not parse, with no working hours and no break fields. With both equal to \<open>garbage\<close>
  under a policy whose \<open>half_day_time\<close> is \<open>2 PM\<close>, line 86 raises \<open>ValueError\<close> and no
  record is returned, neither \<open>Present\<close> nor any flag. This is the unguarded parse of C1.
\<close>

theorem unparseable_punches_corrupt_policy_raises:
  "\<not> falsy (Some ''garbage'')
   \<and> parse_time_simple (Some ''garbage'') = None
   \<and> calculate_status (Some ''garbage'') (Some ''garbage'') None ''2024-01-10''
         [''half_day_time'' \<mapsto> ''2 PM''] None None
       = Inl ValueError"
proof -
  have 1: "\<not> falsy (Some ''garbage'')"
    by (simp add: falsy_def)
  have 2: "parse_time_simple (Some ''garbage'') = None"
    by (simp add: parse_defs strptime_defs rx_defs)
  have 3: "calculate_status (Some ''garbage'') (Some ''garbage'') None ''2024-01-10''
         [''half_day_time'' \<mapsto> ''2 PM''] None None
       = Inl ValueError"
    by (simp add: calculate_status_def max_break_of_def half_day_threshold_of_def get_def
        strptime_defs rx_defs falsy_def Let_def)
  from 1 2 3 show ?thesis by (intro conjI)
qed

subsection \<open>The minutes that \<open>format_hours\<close> prints\<close>

text \<open>
  C10. For a decimal-hours input that is not negative, the minutes that \<open>format_hours\<close>
  prints are between 0 and 59: when the fraction rounds to 60 minutes, the hours go up
  by one and the minutes become 0. The input 1.999 is printed as \<open>2h\<close>.
\<close>

theorem format_hours_minutes_range:
  assumes "0 \<le> x"
  shows "(case hours_minutes x of (h, m) \<Rightarrow>
            0 \<le> m \<and> m \<le> 59
            \<and> format_hours (Some x) =
                (if h = 0 \<and> m = 0 then ''0h 0m''
                 else join ((if 0 < h then [str_int h @ ''h''] else [])
                            @ (if 0 < m then [str_int m @ ''m''] else []))))
         \<and> (round_half_even ((x - of_int (trunc x)) * 60) = 60
              \<longrightarrow> hours_minutes x = (trunc x + 1, 0))
         \<and> format_hours (Some (1999 / 1000)) = ''2h''"
proof -
  have 1: "(case hours_minutes x of (h, m) \<Rightarrow>
            0 \<le> m \<and> m \<le> 59
            \<and> format_hours (Some x) =
                (if h = 0 \<and> m = 0 then ''0h 0m''
                 else join ((if 0 < h then [str_int h @ ''h''] else [])
                            @ (if 0 < m then [str_int m @ ''m''] else []))))"
    using minutes_range [OF assms]
    by (auto simp: hours_minutes_def format_hours_def Let_def)
  have 2: "round_half_even ((x - of_int (trunc x)) * 60) = 60
              \<longrightarrow> hours_minutes x = (trunc x + 1, 0)"
    by (simp add: hours_minutes_def Let_def)
  have 3: "format_hours (Some (1999 / 1000)) = ''2h''"
    by code_simp
  from 1 2 3 show ?thesis by blast
qed

theorem format_hours_minutes_range_witness:
  "(0::rat) \<le> 1999 / 1000
   \<and> round_half_even ((1999 / 1000 - of_int (trunc (1999 / 1000))) * 60) = 60
   \<and> hours_minutes (1999 / 1000) = (2, 0)
   \<and> format_hours (Some (1999 / 1000)) = ''2h''"
proof -
  have h: "(0::rat) \<le> 1999 / 1000" by simp
  have t: "trunc (1999 / 1000) = 1"
    by (simp add: trunc_def floor_eq_iff)
  have "\<lfloor>(2997 / 50 :: rat)\<rfloor> = 59"
    by (simp add: floor_eq_iff)
  then have r: "round_half_even ((1999 / 1000 - of_int (trunc (1999 / 1000))) * 60) = 60"
    by (simp add: t round_half_even_def Let_def)
  from format_hours_minutes_range [OF h] r t h show ?thesis by simp
qed

subsection \<open>The break window\<close>

text \<open>
  C7, as stated, is false for a call without \<open>punch_in\<close>: under the policy of the claim,
  line 65 returns the \<open>Absent\<close> record before the break is looked at, so the break from
  13:05 to 13:50 has \<open>break_duration\<close> 0 and not 45, and the break from 12:30 to 14:30 has
  \<open>break_duration\<close> 0 and both flags false.
\<close>

theorem break_window_absent_punch_in_counterexample:
  "calculate_status None (Some ''18:00'') None ''2024-01-10''
     [''standard_break_start'' \<mapsto> ''13:00'', ''standard_break_end'' \<mapsto> ''14:00'',
      ''max_break_duration'' \<mapsto> ''60'']
     (Some ''13:05'') (Some ''13:50'') = Inr initial_result
   \<and> calculate_status None (Some ''18:00'') None ''2024-01-10''
     [''standard_break_start'' \<mapsto> ''13:00'', ''standard_break_end'' \<mapsto> ''14:00'',
      ''max_break_duration'' \<mapsto> ''60'']
     (Some ''12:30'') (Some ''14:30'') = Inr initial_result
   \<and> break_duration initial_result = 0
   \<and> break_duration initial_result \<noteq> 45
   \<and> break_duration initial_result \<noteq> 120
   \<and> \<not> is_break_outside_window initial_result
   \<and> \<not> break_exceeded initial_result"
  by (simp add: calculate_status_def max_break_of_def float_defs falsy_def initial_result_def)

text \<open>
  C7, amended. Under a policy with \<open>standard_break_start\<close> 13:00, \<open>standard_break_end\<close>
  14:00 and \<open>max_break_duration\<close> 60 that lets the call return (its \<open>half_day_time\<close>
  parses), for every call in which \<open>punch_in\<close> is present, with any punch-out, working
  hours and date: a break from 13:05 to 13:50 gives \<open>break_exceeded\<close> false,
  \<open>is_break_outside_window\<close> false and \<open>break_duration\<close> 45; a break from 12:30 to 14:30
  gives \<open>is_break_outside_window\<close> true, \<open>break_duration\<close> 120 and \<open>break_exceeded\<close> true.
\<close>

theorem break_window_example:
  assumes "\<not> falsy punch_in" and "half_day_threshold_of s = Inr thr"
    and "s ''standard_break_start'' = Some ''13:00''"
    and "s ''standard_break_end'' = Some ''14:00''"
    and "s ''max_break_duration'' = Some ''60''"
  shows "(\<exists>r. calculate_status punch_in punch_out working_hours date_str s
                 (Some ''13:05'') (Some ''13:50'') = Inr r
              \<and> break_exceeded r = False \<and> is_break_outside_window r = False
              \<and> break_duration r = 45)
       \<and> (\<exists>r. calculate_status punch_in punch_out working_hours date_str s
                 (Some ''12:30'') (Some ''14:30'') = Inr r
              \<and> is_break_outside_window r = True \<and> break_duration r = 120
              \<and> break_exceeded r = True)"
proof -
  have mb: "max_break_of s = Inr (Finite 60)"
    by (simp add: max_break_of_def assms(5) float_defs)
  have w1: "strptime (get s ''standard_break_start'' ''13:00'') ''%H:%M''
      = Inr \<lparr>date = \<lparr>year = 1900, month = 1, day = 1\<rparr>, time = \<lparr>hour = 13, minute = 0, second = 0\<rparr>\<rparr>"
    by (simp add: get_def assms(3) strptime_defs rx_defs)
  have w2: "strptime (get s ''standard_break_end'' ''14:00'') ''%H:%M''
      = Inr \<lparr>date = \<lparr>year = 1900, month = 1, day = 1\<rparr>, time = \<lparr>hour = 14, minute = 0, second = 0\<rparr>\<rparr>"
    by (simp add: get_def assms(4) strptime_defs rx_defs)
  have p1: "parse_time_obj (Some ''13:05'')
      = Some \<lparr>date = \<lparr>year = 1900, month = 1, day = 1\<rparr>, time = \<lparr>hour = 13, minute = 5, second = 0\<rparr>\<rparr>"
    by (simp add: parse_defs strptime_defs rx_defs)
  have p2: "parse_time_obj (Some ''13:50'')
      = Some \<lparr>date = \<lparr>year = 1900, month = 1, day = 1\<rparr>, time = \<lparr>hour = 13, minute = 50, second = 0\<rparr>\<rparr>"
    by (simp add: parse_defs strptime_defs rx_defs)
  have p3: "parse_time_obj (Some ''12:30'')
      = Some \<lparr>date = \<lparr>year = 1900, month = 1, day = 1\<rparr>, time = \<lparr>hour = 12, minute = 30, second = 0\<rparr>\<rparr>"
    by (simp add: parse_defs strptime_defs rx_defs)
  have p4: "parse_time_obj (Some ''14:30'')
      = Some \<lparr>date = \<lparr>year = 1900, month = 1, day = 1\<rparr>, time = \<lparr>hour = 14, minute = 30, second = 0\<rparr>\<rparr>"
    by (simp add: parse_defs strptime_defs rx_defs)
  have r45: "round2 45 = 45" and r120: "round2 120 = 120"
    using round2_of_int [of 45] round2_of_int [of 120] by simp_all
  have a: "\<exists>r. calculate_status punch_in punch_out working_hours date_str s
                 (Some ''13:05'') (Some ''13:50'') = Inr r
              \<and> break_exceeded r = False \<and> is_break_outside_window r = False
              \<and> break_duration r = 45"
    by (simp add: calculate_status_present [OF assms(1) mb assms(2)]
        break_rule_parsed [OF p1 p2] window_rule_def w1 w2 total_seconds_def seconds_of_def
        float_gt_def time_lt_def Let_def r45 initial_result_def)
  have b: "\<exists>r. calculate_status punch_in punch_out working_hours date_str s
                 (Some ''12:30'') (Some ''14:30'') = Inr r
              \<and> is_break_outside_window r = True \<and> break_duration r = 120
              \<and> break_exceeded r = True"
    by (simp add: calculate_status_present [OF assms(1) mb assms(2)]
        break_rule_parsed [OF p3 p4] window_rule_def w1 w2 total_seconds_def seconds_of_def
        float_gt_def time_lt_def Let_def r120 initial_result_def)
  from a b show ?thesis by blast
qed

theorem break_window_example_witness:
  "\<not> falsy (Some ''09:00'')
   \<and> half_day_threshold_of [''standard_break_start'' \<mapsto> ''13:00'',
        ''standard_break_end'' \<mapsto> ''14:00'', ''max_break_duration'' \<mapsto> ''60'']
       = Inr \<lparr>hour = 14, minute = 0, second = 0\<rparr>
   \<and> (\<exists>r. calculate_status (Some ''09:00'') (Some ''18:00'') None ''2024-01-10''
             [''standard_break_start'' \<mapsto> ''13:00'', ''standard_break_end'' \<mapsto> ''14:00'',
              ''max_break_duration'' \<mapsto> ''60'']
             (Some ''13:05'') (Some ''13:50'') = Inr r
          \<and> break_exceeded r = False \<and> is_break_outside_window r = False
          \<and> break_duration r = 45)
   \<and> (\<exists>r. calculate_status (Some ''09:00'') (Some ''18:00'') None ''2024-01-10''
             [''standard_break_start'' \<mapsto> ''13:00'', ''standard_break_end'' \<mapsto> ''14:00'',
              ''max_break_duration'' \<mapsto> ''60'']
             (Some ''12:30'') (Some ''14:30'') = Inr r
          \<and> is_break_outside_window r = True \<and> break_duration r = 120
          \<and> break_exceeded r = True)"
proof -
  let ?s = "[''standard_break_start'' \<mapsto> ''13:00'', ''standard_break_end'' \<mapsto> ''14:00'',
             ''max_break_duration'' \<mapsto> ''60''] :: settings"
  have h1: "\<not> falsy (Some ''09:00'')"
    by (simp add: falsy_def)
  have h2: "half_day_threshold_of ?s = Inr \<lparr>hour = 14, minute = 0, second = 0\<rparr>"
    by (simp add: half_day_threshold_of_def get_def strptime_defs rx_defs)
  have h3: "?s ''standard_break_start'' = Some ''13:00''" by simp
  have h4: "?s ''standard_break_end'' = Some ''14:00''" by simp
  have h5: "?s ''max_break_duration'' = Some ''60''" by simp
  from break_window_example [OF h1 h2 h3 h4 h5, of "Some ''18:00''" None "''2024-01-10''"] h1 h2
  show ?thesis by blast
qed

subsection \<open>A break that ends before it starts\<close>

text \<open>
  C4, as stated, is false for a call without \<open>punch_in\<close>: line 65 returns the \<open>Absent\<close>
  record, whose \<open>break_duration\<close> is 0, before the break is looked at.
\<close>

theorem reversed_break_absent_punch_in_counterexample:
  "parse_time_obj (Some ''14:00'') = Some \<lparr>date = \<lparr>year = 1900, month = 1, day = 1\<rparr>,
        time = \<lparr>hour = 14, minute = 0, second = 0\<rparr>\<rparr>
   \<and> parse_time_obj (Some ''13:00'') = Some \<lparr>date = \<lparr>year = 1900, month = 1, day = 1\<rparr>,
        time = \<lparr>hour = 13, minute = 0, second = 0\<rparr>\<rparr>
   \<and> time_lt \<lparr>hour = 13, minute = 0, second = 0\<rparr> \<lparr>hour = 14, minute = 0, second = 0\<rparr>
   \<and> calculate_status None (Some ''18:00'') None ''2024-01-10'' Map.empty
         (Some ''14:00'') (Some ''13:00'')
       = Inr initial_result
   \<and> break_duration initial_result = 0
   \<and> \<not> break_duration initial_result < 0"
  by (simp add: parse_defs strptime_defs rx_defs time_lt_def calculate_status_def
      max_break_of_def falsy_def initial_result_def)

text \<open>
  C4, amended. For every call in which \<open>punch_in\<close> is present, the policy lets the call
  return, both break times parse and \<open>break_end\<close> is earlier than \<open>break_start\<close>, the
  returned \<open>break_duration\<close> is negative, and \<open>break_exceeded\<close> is false whenever
  \<open>max_break_duration\<close> is not negative.
\<close>

theorem reversed_break_negative_duration:
  assumes "\<not> falsy punch_in" and "max_break_of s = Inr mb"
    and "half_day_threshold_of s = Inr thr"
    and "parse_time_obj break_start = Some bs" and "parse_time_obj break_end = Some be"
    and "time_lt (time be) (time bs)"
  shows "\<exists>r. calculate_status punch_in punch_out working_hours date_str s break_start break_end
               = Inr r
            \<and> break_duration r < 0
            \<and> ((case mb of Finite m \<Rightarrow> 0 \<le> m | PosInf \<Rightarrow> True | NegInf \<Rightarrow> False | NaN \<Rightarrow> False)
                  \<longrightarrow> break_exceeded r = False)"
proof -
  let ?mins = "of_int (total_seconds be bs) / 60 :: rat"
  have "date be = date bs"
    using parse_time_obj_Some(1) [OF assms(4)] parse_time_obj_Some(1) [OF assms(5)] by simp
  then have "total_seconds be bs = seconds_of (time be) - seconds_of (time bs)"
    by (rule total_seconds_same_date)
  moreover have "seconds_of (time be) < seconds_of (time bs)"
    using time_lt_seconds [OF parse_time_obj_Some(2) [OF assms(5)] parse_time_obj_Some(2) [OF assms(4)]]
      assms(6) by simp
  ultimately have "total_seconds be bs \<le> - 1" by simp
  then have "(of_int (total_seconds be bs) :: rat) \<le> - 1"
    by (metis of_int_le_iff of_int_minus of_int_1)
  then have mins: "?mins \<le> - 1 / 60" by simp
  then have neg: "round2 ?mins < 0" by (rule round2_negative)
  have gt: "\<not> float_gt ?mins mb"
    if "case mb of Finite m \<Rightarrow> 0 \<le> m | PosInf \<Rightarrow> True | NegInf \<Rightarrow> False | NaN \<Rightarrow> False"
    using that mins by (cases mb) (auto simp: float_gt_def)
  show ?thesis
    using neg gt
    by (simp add: calculate_status_present [OF assms(1,2,3)] break_rule_parsed [OF assms(4,5)]
        Let_def initial_result_def)
qed

theorem reversed_break_negative_duration_witness:
  "\<not> falsy (Some ''09:00'')
   \<and> max_break_of Map.empty = Inr (Finite 60)
   \<and> half_day_threshold_of Map.empty = Inr \<lparr>hour = 14, minute = 0, second = 0\<rparr>
   \<and> parse_time_obj (Some ''14:00'') = Some \<lparr>date = \<lparr>year = 1900, month = 1, day = 1\<rparr>,
        time = \<lparr>hour = 14, minute = 0, second = 0\<rparr>\<rparr>
   \<and> parse_time_obj (Some ''13:00'') = Some \<lparr>date = \<lparr>year = 1900, month = 1, day = 1\<rparr>,
        time = \<lparr>hour = 13, minute = 0, second = 0\<rparr>\<rparr>
   \<and> time_lt \<lparr>hour = 13, minute = 0, second = 0\<rparr> \<lparr>hour = 14, minute = 0, second = 0\<rparr>
   \<and> (\<exists>r. calculate_status (Some ''09:00'') (Some ''18:00'') None ''2024-01-10'' Map.empty
              (Some ''14:00'') (Some ''13:00'') = Inr r
            \<and> break_duration r < 0 \<and> break_exceeded r = False)"
proof -
  have h1: "\<not> falsy (Some ''09:00'')"
    by (simp add: falsy_def)
  have h2: "max_break_of Map.empty = Inr (Finite 60)"
    by (simp add: max_break_of_def)
  have h3: "half_day_threshold_of Map.empty = Inr \<lparr>hour = 14, minute = 0, second = 0\<rparr>"
    by (simp add: half_day_threshold_of_def get_def strptime_defs rx_defs)
  have h4: "parse_time_obj (Some ''14:00'') = Some \<lparr>date = \<lparr>year = 1900, month = 1, day = 1\<rparr>,
        time = \<lparr>hour = 14, minute = 0, second = 0\<rparr>\<rparr>"
    by (simp add: parse_defs strptime_defs rx_defs)
  have h5: "parse_time_obj (Some ''13:00'') = Some \<lparr>date = \<lparr>year = 1900, month = 1, day = 1\<rparr>,
        time = \<lparr>hour = 13, minute = 0, second = 0\<rparr>\<rparr>"
    by (simp add: parse_defs strptime_defs rx_defs)
  have h6: "time_lt (time \<lparr>date = \<lparr>year = 1900, month = 1, day = 1\<rparr>,
        time = \<lparr>hour = 13, minute = 0, second = 0\<rparr>\<rparr>)
      (time \<lparr>date = \<lparr>year = 1900, month = 1, day = 1\<rparr>,
        time = \<lparr>hour = 14, minute = 0, second = 0\<rparr>\<rparr>)"
    by (simp add: time_lt_def)
  from reversed_break_negative_duration [OF h1 h2 h3 h4 h5 h6, of "Some ''18:00''" None "''2024-01-10''"]
    h1 h2 h3 h4 h5 h6
  show ?thesis by auto
qed

subsection \<open>Working hours\<close>

text \<open>
  The two sides of a tie. From 09:00:00 to 09:00:18 the exact hours are 0.005, halfway
  between 0 and 0.01; from 09:00:00 to 16:00:54 they are 7.015, halfway between 7.01 and
  7.02. The model returns the upper or the lower hundredth as its first argument says.
\<close>

lemma calculate_working_hours_tie_example:
  "calculate_working_hours ties_up (Some ''09:00:00'') (Some ''09:00:18'') ''2024-01-10''
     = Some (1 / 100)
   \<and> calculate_working_hours ties_down (Some ''09:00:00'') (Some ''09:00:18'') ''2024-01-10''
     = Some 0
   \<and> calculate_working_hours ties_up (Some ''09:00:00'') (Some ''16:00:54'') ''2024-01-10''
     = Some (702 / 100)
   \<and> calculate_working_hours ties_down (Some ''09:00:00'') (Some ''16:00:54'') ''2024-01-10''
     = Some (701 / 100)"
proof -
  have h1: "parse_time_simple (Some ''09:00:00'') = Some \<lparr>hour = 9, minute = 0, second = 0\<rparr>"
    by (simp add: parse_defs strptime_defs rx_defs)
  have h2: "parse_time_simple (Some ''09:00:18'') = Some \<lparr>hour = 9, minute = 0, second = 18\<rparr>"
    by (simp add: parse_defs strptime_defs rx_defs)
  have h3: "parse_time_simple (Some ''16:00:54'') = Some \<lparr>hour = 16, minute = 0, second = 54\<rparr>"
    by (simp add: parse_defs strptime_defs rx_defs)
  have d: "strptime ''2024-01-10'' ''%Y-%m-%d''
       = Inr \<lparr>date = \<lparr>year = 2024, month = 1, day = 10\<rparr>,
              time = \<lparr>hour = 0, minute = 0, second = 0\<rparr>\<rparr>"
    by (simp add: strptime_defs rx_defs)
  have f1: "\<lfloor>1 / 2 :: rat\<rfloor> = 0" and f2: "\<lfloor>1403 / 2 :: rat\<rfloor> = 701"
    by (simp_all add: floor_eq_iff)
  have r1: "round2_ties ties_up (1 / 200) = 1 / 100" "round2_ties ties_down (1 / 200) = 0"
    by (simp_all add: round2_ties_def round_ties_def ties_up_def ties_down_def f1)
  have r2: "round2_ties ties_up (1403 / 200) = 702 / 100"
    "round2_ties ties_down (1403 / 200) = 701 / 100"
    by (simp_all add: round2_ties_def round_ties_def ties_up_def ties_down_def f2)
  show ?thesis
    by (simp add: calculate_working_hours_Some [OF h1 h2 d] calculate_working_hours_Some [OF h1 h3 d]
        seconds_of_def r1 r2)
qed

text \<open>
  C5, as stated, is false: \<open>calculate_working_hours\<close> also returns \<open>None\<close> when both
  times parse and the date does not parse as \<open>%Y-%m-%d\<close> (line 31, inside the \<open>try\<close>
  whose handler returns \<open>None\<close>).
\<close>

theorem calculate_working_hours_unparseable_date_counterexample:
  "\<not> falsy (Some ''09:00'') \<and> \<not> falsy (Some ''17:00'')
   \<and> parse_time_simple (Some ''09:00'') = Some \<lparr>hour = 9, minute = 0, second = 0\<rparr>
   \<and> parse_time_simple (Some ''17:00'') = Some \<lparr>hour = 17, minute = 0, second = 0\<rparr>
   \<and> wh_time_obj (Some ''09:00'') = Inr \<lparr>date = \<lparr>year = 1900, month = 1, day = 1\<rparr>,
         time = \<lparr>hour = 9, minute = 0, second = 0\<rparr>\<rparr>
   \<and> wh_time_obj (Some ''17:00'') = Inr \<lparr>date = \<lparr>year = 1900, month = 1, day = 1\<rparr>,
         time = \<lparr>hour = 17, minute = 0, second = 0\<rparr>\<rparr>
   \<and> calculate_working_hours ties_up (Some ''09:00'') (Some ''17:00'') ''10/01/2024'' = None
   \<and> calculate_working_hours ties_down (Some ''09:00'') (Some ''17:00'') ''10/01/2024'' = None"
proof -
  have a: "wh_time_obj (Some ''09:00'') = Inr \<lparr>date = \<lparr>year = 1900, month = 1, day = 1\<rparr>,
         time = \<lparr>hour = 9, minute = 0, second = 0\<rparr>\<rparr>"
    by (simp add: wh_time_obj_def str_def upper_def Let_def strptime_defs rx_defs)
  have b: "wh_time_obj (Some ''17:00'') = Inr \<lparr>date = \<lparr>year = 1900, month = 1, day = 1\<rparr>,
         time = \<lparr>hour = 17, minute = 0, second = 0\<rparr>\<rparr>"
    by (simp add: wh_time_obj_def str_def upper_def Let_def strptime_defs rx_defs)
  have c: "strptime ''10/01/2024'' ''%Y-%m-%d'' = Inl ValueError"
    by (simp add: strptime_defs rx_defs)
  have d: "calculate_working_hours up (Some ''09:00'') (Some ''17:00'') ''10/01/2024'' = None" for up
    by (simp add: calculate_working_hours_def wh_parse_time_def a c falsy_def)
  show ?thesis
    using a b d by (simp add: parse_time_simple_wh falsy_def)
qed

text \<open>
  C5, amended. \<open>calculate_working_hours\<close> returns \<open>None\<close> exactly when \<open>punch_in\<close> or
  \<open>punch_out\<close> is absent or does not parse, or the date does not parse as \<open>%Y-%m-%d\<close>.
  Otherwise it returns the elapsed hours rounded to two decimal places, clamped to zero:
  the result is a multiple of 0.01, it is not negative, it is within 0.005 of the exact
  elapsed hours (of zero when they are negative), and it is zero when the punch-out time
  of day is earlier than the punch-in time of day. This holds whichever way a tie is
  rounded. \<open>parse_time_simple\<close> is the four-format time parser; lemma
  \<open>parse_time_simple_wh\<close> shows that the parser inside \<open>calculate_working_hours\<close>
  accepts the same texts with the same times.
\<close>

theorem calculate_working_hours_spec:
  "(calculate_working_hours up punch_in punch_out date_str = None
      \<longleftrightarrow> falsy punch_in \<or> falsy punch_out
         \<or> parse_time_simple punch_in = None \<or> parse_time_simple punch_out = None
         \<or> isl (strptime date_str ''%Y-%m-%d''))
   \<and> (\<forall>tin tout dobj.
         parse_time_simple punch_in = Some tin \<and> parse_time_simple punch_out = Some tout
         \<and> strptime date_str ''%Y-%m-%d'' = Inr dobj \<longrightarrow>
         (\<exists>r k. calculate_working_hours up punch_in punch_out date_str = Some r
            \<and> r = of_int k / 100
            \<and> 0 \<le> r
            \<and> \<bar>r - max 0 (of_int (seconds_of tout - seconds_of tin) / 3600)\<bar> \<le> 1 / 200
            \<and> (time_lt tout tin \<longrightarrow> r = 0)))"
proof (intro conjI allI impI)
  show "calculate_working_hours up punch_in punch_out date_str = None
      \<longleftrightarrow> falsy punch_in \<or> falsy punch_out
         \<or> parse_time_simple punch_in = None \<or> parse_time_simple punch_out = None
         \<or> isl (strptime date_str ''%Y-%m-%d'')"
    by (rule calculate_working_hours_None)
next
  fix tin tout dobj
  assume h: "parse_time_simple punch_in = Some tin \<and> parse_time_simple punch_out = Some tout
         \<and> strptime date_str ''%Y-%m-%d'' = Inr dobj"
  let ?h = "of_int (seconds_of tout - seconds_of tin) / 3600 :: rat"
  let ?r = "max 0 (round2_ties up ?h)"
  have v: "calculate_working_hours up punch_in punch_out date_str = Some ?r"
    using h calculate_working_hours_Some by blast
  obtain k where k: "?r = of_int k / 100"
    using max0_round2_ties by blast
  have n: "0 \<le> ?r" by simp
  have c: "\<bar>?r - max 0 ?h\<bar> \<le> 1 / 200"
    by (rule max0_round2_ties_close)
  have z: "?r = 0" if "time_lt tout tin"
  proof -
    have "valid_time tin" "valid_time tout"
      using h parse_time_simple_valid by blast+
    then have "seconds_of tout < seconds_of tin"
      using that time_lt_seconds by blast
    then have "?h \<le> 0"
      by (simp add: divide_le_0_iff)
    then have "round2_ties up ?h \<le> 0" by (rule round2_ties_nonpos)
    then show ?thesis by simp
  qed
  show "\<exists>r k. calculate_working_hours up punch_in punch_out date_str = Some r
            \<and> r = of_int k / 100
            \<and> 0 \<le> r
            \<and> \<bar>r - max 0 ?h\<bar> \<le> 1 / 200
            \<and> (time_lt tout tin \<longrightarrow> r = 0)"
    using v k n c z by blast
qed

theorem calculate_working_hours_spec_witness:
  "parse_time_simple (Some ''09:45'') = Some \<lparr>hour = 9, minute = 45, second = 0\<rparr>
   \<and> parse_time_simple (Some ''18:00'') = Some \<lparr>hour = 18, minute = 0, second = 0\<rparr>
   \<and> strptime ''2024-01-10'' ''%Y-%m-%d''
       = Inr \<lparr>date = \<lparr>year = 2024, month = 1, day = 10\<rparr>,
              time = \<lparr>hour = 0, minute = 0, second = 0\<rparr>\<rparr>
   \<and> calculate_working_hours ties_up (Some ''09:45'') (Some ''18:00'') ''2024-01-10''
       = Some (33 / 4)
   \<and> (\<exists>r k. calculate_working_hours ties_up (Some ''09:45'') (Some ''18:00'') ''2024-01-10''
               = Some r
            \<and> r = of_int k / 100 \<and> 0 \<le> r \<and> \<bar>r - 33 / 4\<bar> \<le> 1 / 200)"
proof -
  let ?tin = "\<lparr>hour = 9, minute = 45, second = 0\<rparr>"
  let ?tout = "\<lparr>hour = 18, minute = 0, second = 0\<rparr>"
  let ?d = "\<lparr>date = \<lparr>year = 2024, month = 1, day = 10\<rparr>,
            time = \<lparr>hour = 0, minute = 0, second = 0\<rparr>\<rparr>"
  have h1: "parse_time_simple (Some ''09:45'') = Some ?tin"
    by (simp add: parse_defs strptime_defs rx_defs)
  have h2: "parse_time_simple (Some ''18:00'') = Some ?tout"
    by (simp add: parse_defs strptime_defs rx_defs)
  have h3: "strptime ''2024-01-10'' ''%Y-%m-%d'' = Inr ?d"
    by (simp add: strptime_defs rx_defs)
  have e: "max 0 (of_int (seconds_of ?tout - seconds_of ?tin) / 3600 :: rat) = 33 / 4"
    by (simp add: seconds_of_def)
  have r: "round2_ties ties_up (33 / 4) = 33 / 4"
    by (simp add: round2_ties_def round_ties_def)
  have v: "calculate_working_hours ties_up (Some ''09:45'') (Some ''18:00'') ''2024-01-10''
       = Some (33 / 4)"
    by (simp add: calculate_working_hours_Some [OF h1 h2 h3] seconds_of_def r)
  from calculate_working_hours_spec [of ties_up "Some ''09:45''" "Some ''18:00''" "''2024-01-10''"]
  have "\<forall>tin tout dobj.
         parse_time_simple (Some ''09:45'') = Some tin \<and> parse_time_simple (Some ''18:00'') = Some tout
         \<and> strptime ''2024-01-10'' ''%Y-%m-%d'' = Inr dobj \<longrightarrow>
         (\<exists>r k. calculate_working_hours ties_up (Some ''09:45'') (Some ''18:00'') ''2024-01-10''
                 = Some r
            \<and> r = of_int k / 100
            \<and> 0 \<le> r
            \<and> \<bar>r - max 0 (of_int (seconds_of tout - seconds_of tin) / 3600)\<bar> \<le> 1 / 200
            \<and> (time_lt tout tin \<longrightarrow> r = 0))"
    by (rule conjunct2)
  then have "\<exists>r k. calculate_working_hours ties_up (Some ''09:45'') (Some ''18:00'') ''2024-01-10''
                 = Some r
            \<and> r = of_int k / 100
            \<and> 0 \<le> r
            \<and> \<bar>r - max 0 (of_int (seconds_of ?tout - seconds_of ?tin) / 3600)\<bar> \<le> 1 / 200
            \<and> (time_lt ?tout ?tin \<longrightarrow> r = 0)"
    using h1 h2 h3 by (elim allE [of _ ?tin] allE [of _ ?tout] allE [of _ ?d] impE) (intro conjI)
  then have "\<exists>r k. calculate_working_hours ties_up (Some ''09:45'') (Some ''18:00'') ''2024-01-10''
                 = Some r
            \<and> r = of_int k / 100 \<and> 0 \<le> r \<and> \<bar>r - 33 / 4\<bar> \<le> 1 / 200"
    unfolding e by (elim exE conjE) (intro exI conjI)
  with h1 h2 h3 v show ?thesis by (intro conjI)
qed

end
